theory Spec2Isabelle
  imports Main "HOL-Library.Sublist"
begin

section \<open>Go strings and the functions of package strings that the program calls\<close>

text \<open>
  A Go string is a sequence of bytes, here a \<open>char list\<close>. The functions below are the
  ones of Go's package \<open>strings\<close> that oak calls, written from their documented behaviour.
\<close>

definition HasPrefix :: "string \<Rightarrow> string \<Rightarrow> bool" where
  "HasPrefix s p = (length p \<le> length s \<and> take (length p) s = p)"

definition HasSuffix :: "string \<Rightarrow> string \<Rightarrow> bool" where
  "HasSuffix s p = (length p \<le> length s \<and> drop (length s - length p) s = p)"

definition TrimPrefix :: "string \<Rightarrow> string \<Rightarrow> string" where
  "TrimPrefix s p = (if HasPrefix s p then drop (length p) s else s)"

text \<open>
  \<open>strings.Index\<close>: the byte offset of the first occurrence of \<open>sep\<close> in \<open>s\<close>, or \<open>-1\<close>.
\<close>

fun Index :: "string \<Rightarrow> string \<Rightarrow> int" where
  "Index [] sep = (if sep = [] then 0 else - 1)"
| "Index (c # cs) sep =
     (if HasPrefix (c # cs) sep then 0
      else (let i = Index cs sep in if i < 0 then - 1 else i + 1))"

text \<open>
  \<open>strings.Split\<close> with a separator of one byte, the only way the program calls it:
  the pieces of \<open>s\<close> between the occurrences of the separator, empty pieces included.
\<close>

fun Split :: "string \<Rightarrow> char \<Rightarrow> string list" where
  "Split [] sep = [[]]"
| "Split (c # cs) sep =
     (if c = sep then [] # Split cs sep
      else (case Split cs sep of
              [] \<Rightarrow> [[c]]
            | piece # pieces \<Rightarrow> (c # piece) # pieces))"

text \<open>
  A slice expression \<open>s[lo:hi]\<close> panics unless \<open>0 \<le> lo \<le> hi \<le> len(s)\<close>.
\<close>

datatype panic = NilPointerDereference | SliceBoundsOutOfRange

definition slice :: "string \<Rightarrow> int \<Rightarrow> int \<Rightarrow> panic + string" where
  "slice s lo hi =
     (if 0 \<le> lo \<and> lo \<le> hi \<and> hi \<le> int (length s)
      then Inr (take (nat (hi - lo)) (drop (nat lo) s))
      else Inl SliceBoundsOutOfRange)"

text \<open>
  \<open>strings.TrimSpace\<close> removes the leading and trailing white space of \<open>s\<close>, as
  \<open>unicode.IsSpace\<close> defines it: the six ASCII space bytes, U+0085 and U+00A0, and the
  code points of the Unicode property White_Space beyond Latin-1. \<open>spaceRunes\<close> lists
  their UTF-8 encodings. A byte sequence that is not one of these encodings decodes to
  another rune or to the error rune, which is no space, so that trimming stops there.
\<close>

definition spaceRunes :: "string list" where
  "spaceRunes =
     [[CHR 0x09], [CHR 0x0A], [CHR 0x0B], [CHR 0x0C], [CHR 0x0D], [CHR 0x20],
      [CHR 0xC2, CHR 0x85], [CHR 0xC2, CHR 0xA0],
      [CHR 0xE1, CHR 0x9A, CHR 0x80],
      [CHR 0xE2, CHR 0x80, CHR 0x80], [CHR 0xE2, CHR 0x80, CHR 0x81],
      [CHR 0xE2, CHR 0x80, CHR 0x82], [CHR 0xE2, CHR 0x80, CHR 0x83],
      [CHR 0xE2, CHR 0x80, CHR 0x84], [CHR 0xE2, CHR 0x80, CHR 0x85],
      [CHR 0xE2, CHR 0x80, CHR 0x86], [CHR 0xE2, CHR 0x80, CHR 0x87],
      [CHR 0xE2, CHR 0x80, CHR 0x88], [CHR 0xE2, CHR 0x80, CHR 0x89],
      [CHR 0xE2, CHR 0x80, CHR 0x8A],
      [CHR 0xE2, CHR 0x80, CHR 0xA8], [CHR 0xE2, CHR 0x80, CHR 0xA9],
      [CHR 0xE2, CHR 0x80, CHR 0xAF], [CHR 0xE2, CHR 0x81, CHR 0x9F],
      [CHR 0xE3, CHR 0x80, CHR 0x80]]"

text \<open>
  The number of bytes of the white-space rune at the start, or at the end, of \<open>s\<close>, and
  \<open>0\<close> if there is none; trimming removes such runes until none is left.
\<close>

definition leadingSpace :: "string \<Rightarrow> nat" where
  "leadingSpace s = (case filter (\<lambda>w. HasPrefix s w) spaceRunes of [] \<Rightarrow> 0 | w # _ \<Rightarrow> length w)"

definition trailingSpace :: "string \<Rightarrow> nat" where
  "trailingSpace s = (case filter (\<lambda>w. HasSuffix s w) spaceRunes of [] \<Rightarrow> 0 | w # _ \<Rightarrow> length w)"

function trimLeftSpace :: "string \<Rightarrow> string" where
  "trimLeftSpace s = (if leadingSpace s = 0 then s else trimLeftSpace (drop (leadingSpace s) s))"
  by pat_completeness auto
termination
proof (relation "measure length")
  show "wf (measure length)" by simp
next
  fix s :: string
  assume "leadingSpace s \<noteq> 0"
  then obtain w ws where found: "filter (\<lambda>w. HasPrefix s w) spaceRunes = w # ws"
    by (auto simp: leadingSpace_def split: list.splits)
  then have "w \<in> set (filter (\<lambda>w. HasPrefix s w) spaceRunes)" by simp
  then have "HasPrefix s w" by simp
  moreover from found have "leadingSpace s = length w" by (simp add: leadingSpace_def)
  ultimately have "leadingSpace s \<le> length s" by (simp add: HasPrefix_def)
  with \<open>leadingSpace s \<noteq> 0\<close> show "(drop (leadingSpace s) s, s) \<in> measure length"
    by simp
qed

function trimRightSpace :: "string \<Rightarrow> string" where
  "trimRightSpace s =
     (if trailingSpace s = 0 then s else trimRightSpace (take (length s - trailingSpace s) s))"
  by pat_completeness auto
termination
proof (relation "measure length")
  show "wf (measure length)" by simp
next
  fix s :: string
  assume "trailingSpace s \<noteq> 0"
  then obtain w ws where found: "filter (\<lambda>w. HasSuffix s w) spaceRunes = w # ws"
    by (auto simp: trailingSpace_def split: list.splits)
  then have "w \<in> set (filter (\<lambda>w. HasSuffix s w) spaceRunes)" by simp
  then have "HasSuffix s w" by simp
  moreover from found have "trailingSpace s = length w" by (simp add: trailingSpace_def)
  ultimately have "trailingSpace s \<le> length s" by (simp add: HasSuffix_def)
  with \<open>trailingSpace s \<noteq> 0\<close> show "(take (length s - trailingSpace s) s, s) \<in> measure length"
    by simp
qed

declare trimLeftSpace.simps [simp del] trimRightSpace.simps [simp del]

definition TrimSpace :: "string \<Rightarrow> string" where
  "TrimSpace s = trimRightSpace (trimLeftSpace s)"

text \<open>
  Every byte in the encoding of a white-space rune is an ASCII space byte or a byte of
  a multi-byte encoding.
\<close>

definition spaceRuneByte :: "char \<Rightarrow> bool" where
  "spaceRuneByte c = ((of_char c :: nat) \<in> {9, 10, 11, 12, 13, 32} \<or> 128 \<le> (of_char c :: nat))"

text \<open>
  \<open>strings.ToLower\<close> has two paths. On a string of ASCII bytes only it adds
  \<open>'a' - 'A'\<close> to every byte between \<open>'A'\<close> and \<open>'Z'\<close>. Any other string goes through
  \<open>strings.Map(unicode.ToLower, s)\<close>, which needs the Unicode case tables: that path is
  the parameter \<open>mapLower\<close> of every function that lowers a string, and the theorems
  hold for whatever it computes.
\<close>

definition isASCII :: "string \<Rightarrow> bool" where
  "isASCII s = list_all (\<lambda>c. (of_char c :: nat) < 128) s"

definition isUpper :: "char \<Rightarrow> bool" where
  "isUpper c = (65 \<le> (of_char c :: nat) \<and> (of_char c :: nat) \<le> 90)"

definition hasUpper :: "string \<Rightarrow> bool" where
  "hasUpper s = list_ex isUpper s"

definition lowerByte :: "char \<Rightarrow> char" where
  "lowerByte c = (if isUpper c then char_of ((of_char c :: nat) + 32) else c)"

definition ToLower :: "(string \<Rightarrow> string) \<Rightarrow> string \<Rightarrow> string" where
  "ToLower mapLower s =
     (if isASCII s then (if \<not> hasUpper s then s else map lowerByte s) else mapLower s)"

section \<open>Package parser: field and struct descriptors\<close>

record FieldInfo =
  Name :: string
  Type :: string
  Tag :: string
  LogTag :: string
  IsPointer :: bool

text \<open>The field \<open>Name\<close> of the Go struct \<open>StructInfo\<close> is \<open>StructName\<close> here.\<close>

record StructInfo =
  StructName :: string
  PackageName :: string
  Fields :: "FieldInfo list"
  FilePath :: string

text \<open>
  The type expressions of \<open>go/ast\<close>. \<open>typeToString\<close> switches on the node kind, so every
  kind of expression node is a constructor; the kinds the program never looks into
  carry no payload. In \<open>ArrayType\<close> the length is absent for a slice. A field of a
  \<open>StructType\<close> is its list of names (empty for an embedded field), its type and its
  tag literal when it has one.
\<close>

datatype expr =
    Ident string
  | StarExpr expr
  | ArrayType "expr option" expr
  | MapType expr expr
  | SelectorExpr expr string
  | InterfaceType
  | StructType "(string list \<times> expr \<times> string option) list"
  | FuncType
  | ChanType expr
  | Ellipsis
  | BasicLit string
  | ParenExpr expr
  | IndexExpr expr expr
  | IndexListExpr expr "expr list"
  | BadExpr
  | FuncLit
  | CompositeLit
  | SliceExpr
  | TypeAssertExpr
  | CallExpr
  | UnaryExpr
  | BinaryExpr
  | KeyValueExpr

fun typeToString :: "expr \<Rightarrow> string" where
  "typeToString (Ident name) = name"
| "typeToString (StarExpr x) = ''*'' @ typeToString x"
| "typeToString (ArrayType None elt) = ''[]'' @ typeToString elt"
| "typeToString (ArrayType (Some len) elt) =
     ''['' @ typeToString len @ '']'' @ typeToString elt"
| "typeToString (MapType key val) = ''map['' @ typeToString key @ '']'' @ typeToString val"
| "typeToString (SelectorExpr x sel) = typeToString x @ ''.'' @ sel"
| "typeToString InterfaceType = ''interface{}''"
| "typeToString _ = ''unknown''"

fun isPointerType :: "expr \<Rightarrow> bool" where
  "isPointerType (StarExpr x) = True"
| "isPointerType _ = False"

text \<open>The loop of \<open>extractLogTag\<close> over the space-separated parts of the tag.\<close>

fun findLogTag :: "string list \<Rightarrow> string" where
  "findLogTag [] = []"
| "findLogTag (part # parts) =
     (if HasPrefix part ''log:'' then
        (let colonIndex = Index part '':''
         in if colonIndex \<ge> 0 \<and> colonIndex < int (length part) - 1 then
              (let val = drop (nat (colonIndex + 1)) part
               in if length val \<ge> 2 \<and> val ! 0 = CHR 0x22 \<and> val ! (length val - 1) = CHR 0x22
                  then take (length val - 2) (drop 1 val)
                  else findLogTag parts)
            else findLogTag parts)
      else findLogTag parts)"

definition extractLogTag :: "string \<Rightarrow> string" where
  "extractLogTag tagValue =
     (let tagValue' =
        (if length tagValue \<ge> 2 \<and> tagValue ! 0 = CHR 0x60
            \<and> tagValue ! (length tagValue - 1) = CHR 0x60
         then take (length tagValue - 2) (drop 1 tagValue)
         else tagValue)
      in findLogTag (Split tagValue' CHR '' ''))"

text \<open>
  \<open>extractFields\<close> builds the same descriptor in both of its branches, from the name,
  the type expression and the optional tag: \<open>newFieldInfo\<close>.
\<close>

definition newFieldInfo :: "string \<Rightarrow> expr \<Rightarrow> string option \<Rightarrow> FieldInfo" where
  "newFieldInfo name t tag =
     \<lparr>Name = name, Type = typeToString t,
      Tag = (case tag of None \<Rightarrow> [] | Some v \<Rightarrow> v),
      LogTag = (case tag of None \<Rightarrow> [] | Some v \<Rightarrow> extractLogTag v),
      IsPointer = isPointerType t\<rparr>"

fun extractFields :: "(string list \<times> expr \<times> string option) list \<Rightarrow> FieldInfo list" where
  "extractFields [] = []"
| "extractFields ((names, t, tag) # rest) =
     (if names = [] then [newFieldInfo (typeToString t) t tag]
      else map (\<lambda>name. newFieldInfo name t tag) names)
     @ extractFields rest"

text \<open>
  The keywords of a general declaration: \<open>token.IMPORT\<close>, \<open>token.CONST\<close>, \<open>token.TYPE\<close>
  and \<open>token.VAR\<close>.
\<close>

datatype token = tokIMPORT | tokCONST | tokTYPE | tokVAR

text \<open>
  The syntax tree that \<open>ast.Inspect\<close> walks in depth-first order. Only general
  declarations are looked at: a \<open>GenDecl\<close> has its keyword, its specs and the nodes below
  it; every other node is an \<open>OtherNode\<close> with the nodes below it (a function body can
  hold a local type declaration). A type spec has the name and the type expression.
\<close>

datatype spec = TypeSpec string expr | ImportSpec | ValueSpec

datatype node = GenDecl token "spec list" "node list" | OtherNode "node list"

record File =
  PkgName :: string
  Comments :: "string list list"
  Decls :: "node list"

fun structsOfSpecs :: "string \<Rightarrow> string \<Rightarrow> spec list \<Rightarrow> StructInfo list" where
  "structsOfSpecs pkg filePath [] = []"
| "structsOfSpecs pkg filePath (TypeSpec name (StructType fs) # specs) =
     \<lparr>StructName = name, PackageName = pkg, Fields = extractFields fs, FilePath = filePath\<rparr>
     # structsOfSpecs pkg filePath specs"
| "structsOfSpecs pkg filePath (_ # specs) = structsOfSpecs pkg filePath specs"

fun inspect :: "string \<Rightarrow> string \<Rightarrow> node \<Rightarrow> StructInfo list" where
  "inspect pkg filePath (GenDecl tok specs below) =
     (if tok = tokTYPE then structsOfSpecs pkg filePath specs else [])
     @ concat (map (inspect pkg filePath) below)"
| "inspect pkg filePath (OtherNode below) = concat (map (inspect pkg filePath) below)"

definition extractStructs :: "File \<Rightarrow> string \<Rightarrow> StructInfo list" where
  "extractStructs file filePath = concat (map (inspect (PkgName file) filePath) (Decls file))"

text \<open>
  The body of the inner loop of \<open>hasOakDirective\<close>, for one comment: the comment
  markers are removed and the remaining text is tested for the directive. The slice
  \<open>text[2 : len(text)-2]\<close> panics on the text \<open>/*/\<close>, which begins with \<open>/*\<close> and ends
  with \<open>*/\<close> but has three bytes.
\<close>

definition commentHasDirective :: "string \<Rightarrow> panic + bool" where
  "commentHasDirective comment =
     (let text = TrimSpace comment
      in if HasPrefix text ''//'' then
           (case slice text 2 (int (length text)) of
              Inl p \<Rightarrow> Inl p
            | Inr t \<Rightarrow> Inr (HasPrefix (TrimSpace t) ''go:generate oak''))
         else if HasPrefix text ''/*'' \<and> HasSuffix text ''*/'' then
           (case slice text 2 (int (length text) - 2) of
              Inl p \<Rightarrow> Inl p
            | Inr t \<Rightarrow> Inr (HasPrefix (TrimSpace t) ''go:generate oak''))
         else Inr (HasPrefix text ''go:generate oak''))"

fun groupHasDirective :: "string list \<Rightarrow> panic + bool" where
  "groupHasDirective [] = Inr False"
| "groupHasDirective (comment # comments) =
     (case commentHasDirective comment of
        Inl p \<Rightarrow> Inl p
      | Inr True \<Rightarrow> Inr True
      | Inr False \<Rightarrow> groupHasDirective comments)"

fun groupsHaveDirective :: "string list list \<Rightarrow> panic + bool" where
  "groupsHaveDirective [] = Inr False"
| "groupsHaveDirective (commentGroup # groups) =
     (case groupHasDirective commentGroup of
        Inl p \<Rightarrow> Inl p
      | Inr True \<Rightarrow> Inr True
      | Inr False \<Rightarrow> groupsHaveDirective groups)"

definition hasOakDirective :: "File \<Rightarrow> panic + bool" where
  "hasOakDirective file = groupsHaveDirective (Comments file)"

text \<open>
  \<open>ParseFile\<close> reads and parses the file with \<open>go/parser\<close>, which is the parameter
  \<open>goParse\<close>: it gives the syntax tree of the file at a path, or the message of a
  syntax or read error. The result of \<open>ParseFile\<close> is a panic, or what it returns: an
  error message or the parse result.
\<close>

record ParseResult =
  Structs :: "StructInfo list"
  Errors :: "string list"

definition ParseFile ::
  "(string \<Rightarrow> string + File) \<Rightarrow> string \<Rightarrow> panic + (string + ParseResult)" where
  "ParseFile goParse filePath =
     (let result = \<lparr>Structs = [], Errors = []\<rparr>
      in case goParse filePath of
           Inl err \<Rightarrow> Inr (Inl (''failed to parse file '' @ filePath @ '': '' @ err))
         | Inr file \<Rightarrow>
             (case hasOakDirective file of
                Inl p \<Rightarrow> Inl p
              | Inr False \<Rightarrow> Inr (Inr result)
              | Inr True \<Rightarrow> Inr (Inr (result\<lparr>Structs := extractStructs file filePath\<rparr>))))"

section \<open>Package config\<close>

record Config =
  Packages :: "string list"
  RedactKeys :: "string list"
  RedactMessage :: string

definition DefaultConfig :: Config where
  "DefaultConfig = \<lparr>Packages = [''.''], RedactKeys = [], RedactMessage = ''[REDACTED]''\<rparr>"

text \<open>The loop of \<open>ShouldRedactField\<close> over the stored keys.\<close>

fun matchRedactKey :: "string \<Rightarrow> string list \<Rightarrow> bool" where
  "matchRedactKey fieldLower [] = False"
| "matchRedactKey fieldLower (redactKey # keys) =
     (if fieldLower = redactKey then True else matchRedactKey fieldLower keys)"

definition ShouldRedactField :: "(string \<Rightarrow> string) \<Rightarrow> Config \<Rightarrow> string \<Rightarrow> bool" where
  "ShouldRedactField mapLower c fieldName =
     (let fieldLower = ToLower mapLower fieldName
      in matchRedactKey fieldLower (RedactKeys c))"

text \<open>
  \<open>validate\<close> changes the configuration in place and returns an error or nil: the model
  returns the configuration as \<open>validate\<close> leaves it, and the error message if any. The
  file system it asks about the package paths is a parameter: \<open>IsAbs\<close> for
  \<open>filepath.IsAbs\<close>, \<open>Abs\<close> for \<open>filepath.Abs\<close> (an error message or the absolute path)
  and \<open>NotExist\<close> for \<open>os.Stat\<close> failing with a not-exist error.
\<close>

record FileSystem =
  IsAbs :: "string \<Rightarrow> bool"
  Abs :: "string \<Rightarrow> string + string"
  NotExist :: "string \<Rightarrow> bool"

fun validatePackages :: "FileSystem \<Rightarrow> string list \<Rightarrow> string option" where
  "validatePackages fs [] = None"
| "validatePackages fs (pkg # pkgs) =
     (if pkg = [] then Some ''empty package path in packages list''
      else if \<not> IsAbs fs pkg then
        (case Abs fs pkg of
           Inl err \<Rightarrow> Some (''invalid package path '' @ pkg @ '': '' @ err)
         | Inr absPath \<Rightarrow>
             if NotExist fs absPath then Some (''package path does not exist: '' @ pkg)
             else validatePackages fs pkgs)
      else validatePackages fs pkgs)"

definition validate ::
  "(string \<Rightarrow> string) \<Rightarrow> FileSystem \<Rightarrow> Config \<Rightarrow> Config \<times> string option" where
  "validate mapLower fs c =
     (let keys = fold (\<lambda>i ks. ks[i := ToLower mapLower (ks ! i)])
                   [0 ..< length (RedactKeys c)] (RedactKeys c);
          c1 = c\<lparr>RedactKeys := keys\<rparr>;
          c2 = (if RedactMessage c1 = [] then c1\<lparr>RedactMessage := ''[REDACTED]''\<rparr> else c1)
      in (c2, validatePackages fs (Packages c2)))"

section \<open>Package types: the field policy engine\<close>

text \<open>
  \<open>SlogFunction\<close> is a Go string type and \<open>FieldAction\<close> a Go int type with three named
  values; a value of either type need not be one of the named constants, and the
  \<open>default\<close> branches of the code are kept.
\<close>

type_synonym SlogFunction = string

definition SlogInt64 :: SlogFunction where "SlogInt64 = ''slog.Int64''"
definition SlogString :: SlogFunction where "SlogString = ''slog.String''"
definition SlogBool :: SlogFunction where "SlogBool = ''slog.Bool''"
definition SlogFloat64 :: SlogFunction where "SlogFloat64 = ''slog.Float64''"
definition SlogAny :: SlogFunction where "SlogAny = ''slog.Any''"

type_synonym FieldAction = int

definition ActionLog :: FieldAction where "ActionLog = 0"
definition ActionRedact :: FieldAction where "ActionRedact = 1"
definition ActionSkip :: FieldAction where "ActionSkip = 2"

record FieldAnalysis =
  Field :: FieldInfo
  Action :: FieldAction
  SlogFunc :: SlogFunction
  LogValue :: string

text \<open>
  \<open>TypeAnalyzer\<close> holds a pointer to the configuration; \<open>NewTypeAnalyzer\<close> stores the
  pointer it is given, which may be nil. Reading a field of a nil configuration panics.
\<close>

record TypeAnalyzer =
  config :: "Config option"

definition NewTypeAnalyzer :: "Config option \<Rightarrow> TypeAnalyzer" where
  "NewTypeAnalyzer cfg = \<lparr>config = cfg\<rparr>"

definition shouldRedactField ::
  "(string \<Rightarrow> string) \<Rightarrow> TypeAnalyzer \<Rightarrow> FieldInfo \<Rightarrow> panic + bool" where
  "shouldRedactField mapLower ta field =
     (if LogTag field = ''-'' then Inr False
      else if LogTag field = ''redact'' then Inr True
      else (case config ta of
              None \<Rightarrow> Inl NilPointerDereference
            | Some c \<Rightarrow> Inr (ShouldRedactField mapLower c (Name field))))"

definition getSlogFunction :: "FieldInfo \<Rightarrow> SlogFunction" where
  "getSlogFunction field =
     (let fieldType = (if IsPointer field then TrimPrefix (Type field) ''*'' else Type field)
      in if fieldType \<in> {''int'', ''int8'', ''int16'', ''int32'', ''int64''} then SlogInt64
         else if fieldType \<in> {''uint'', ''uint8'', ''uint16'', ''uint32'', ''uint64''} then SlogInt64
         else if fieldType = ''string'' then SlogString
         else if fieldType = ''bool'' then SlogBool
         else if fieldType \<in> {''float32'', ''float64''} then SlogFloat64
         else SlogAny)"

definition AnalyzeField ::
  "(string \<Rightarrow> string) \<Rightarrow> TypeAnalyzer \<Rightarrow> FieldInfo \<Rightarrow> panic + FieldAnalysis" where
  "AnalyzeField mapLower ta field =
     (let analysis = \<lparr>Field = field, Action = 0, SlogFunc = [], LogValue = []\<rparr>
      in if LogTag field = ''-'' then Inr (analysis\<lparr>Action := ActionSkip\<rparr>)
         else (case shouldRedactField mapLower ta field of
                 Inl p \<Rightarrow> Inl p
               | Inr True \<Rightarrow>
                   (case config ta of
                      None \<Rightarrow> Inl NilPointerDereference
                    | Some c \<Rightarrow>
                        Inr (analysis\<lparr>Action := ActionRedact, SlogFunc := SlogString,
                                       LogValue := RedactMessage c\<rparr>))
               | Inr False \<Rightarrow>
                   Inr (analysis\<lparr>Action := ActionLog, SlogFunc := getSlogFunction field\<rparr>)))"

text \<open>The loop of \<open>AnalyzeStruct\<close>: one analysis appended per field, in field order.\<close>

fun analyzeFields ::
  "(string \<Rightarrow> string) \<Rightarrow> TypeAnalyzer \<Rightarrow> FieldInfo list \<Rightarrow> FieldAnalysis list
     \<Rightarrow> panic + FieldAnalysis list" where
  "analyzeFields mapLower ta [] analyses = Inr analyses"
| "analyzeFields mapLower ta (field # rest) analyses =
     (case AnalyzeField mapLower ta field of
        Inl p \<Rightarrow> Inl p
      | Inr analysis \<Rightarrow> analyzeFields mapLower ta rest (analyses @ [analysis]))"

definition AnalyzeStruct ::
  "(string \<Rightarrow> string) \<Rightarrow> TypeAnalyzer \<Rightarrow> StructInfo \<Rightarrow> panic + FieldAnalysis list" where
  "AnalyzeStruct mapLower ta structInfo = analyzeFields mapLower ta (Fields structInfo) []"

text \<open>The loop of \<open>HasLoggableFields\<close> over the analyses.\<close>

fun anyNotSkipped :: "FieldAnalysis list \<Rightarrow> bool" where
  "anyNotSkipped [] = False"
| "anyNotSkipped (analysis # analyses) =
     (if Action analysis \<noteq> ActionSkip then True else anyNotSkipped analyses)"

definition HasLoggableFields ::
  "(string \<Rightarrow> string) \<Rightarrow> TypeAnalyzer \<Rightarrow> StructInfo \<Rightarrow> panic + bool" where
  "HasLoggableFields mapLower ta structInfo =
     (case AnalyzeStruct mapLower ta structInfo of
        Inl p \<Rightarrow> Inl p
      | Inr analyses \<Rightarrow> Inr (anyNotSkipped analyses))"

definition getFieldAccessor :: "FieldInfo \<Rightarrow> string \<Rightarrow> string" where
  "getFieldAccessor field receiverName = receiverName @ ''.'' @ Name field"

text \<open>
  The four templates for a pointer field are raw string literals that span lines of
  the source file: each line break is a newline byte followed by the tabs of the
  source's indentation.
\<close>

definition nlTabs :: "nat \<Rightarrow> string" where
  "nlTabs n = CHR 0x0A # replicate n (CHR 0x09)"

definition generateNormalLogStatement :: "FieldAnalysis \<Rightarrow> string \<Rightarrow> string" where
  \<open>generateNormalLogStatement analysis receiverName =
     (let fieldName = Name (Field analysis);
          fieldAccessor = getFieldAccessor (Field analysis) receiverName
      in if SlogFunc analysis = SlogInt64 then
           (if IsPointer (Field analysis) then
              ''func() slog.Attr {'' @ nlTabs 4 @ ''if '' @ fieldAccessor @ '' == nil {''
              @ nlTabs 5 @ ''return slog.String("'' @ fieldName @ ''", "null")''
              @ nlTabs 4 @ ''}''
              @ nlTabs 4 @ ''return slog.Int64("'' @ fieldName @ ''", int64(*'' @ fieldAccessor @ ''))''
              @ nlTabs 3 @ ''}()''
            else if Type (Field analysis) \<noteq> ''int64'' then
              SlogFunc analysis @ ''("'' @ fieldName @ ''", int64('' @ fieldAccessor @ ''))''
            else SlogFunc analysis @ ''("'' @ fieldName @ ''", '' @ fieldAccessor @ '')'')
         else if SlogFunc analysis = SlogFloat64 then
           (if IsPointer (Field analysis) then
              ''func() slog.Attr {'' @ nlTabs 4 @ ''if '' @ fieldAccessor @ '' == nil {''
              @ nlTabs 5 @ ''return slog.String("'' @ fieldName @ ''", "null")''
              @ nlTabs 4 @ ''}''
              @ nlTabs 4 @ ''return slog.Float64("'' @ fieldName @ ''", float64(*'' @ fieldAccessor @ ''))''
              @ nlTabs 3 @ ''}()''
            else if Type (Field analysis) \<noteq> ''float64'' then
              SlogFunc analysis @ ''("'' @ fieldName @ ''", float64('' @ fieldAccessor @ ''))''
            else SlogFunc analysis @ ''("'' @ fieldName @ ''", '' @ fieldAccessor @ '')'')
         else if SlogFunc analysis = SlogString \<or> SlogFunc analysis = SlogBool then
           (if IsPointer (Field analysis) then
              ''func() slog.Attr {'' @ nlTabs 4 @ ''if '' @ fieldAccessor @ '' == nil {''
              @ nlTabs 5 @ ''return slog.String("'' @ fieldName @ ''", "null")''
              @ nlTabs 4 @ ''}''
              @ nlTabs 4 @ ''return '' @ SlogFunc analysis @ ''("'' @ fieldName @ ''", *'' @ fieldAccessor @ '')''
              @ nlTabs 3 @ ''}()''
            else SlogFunc analysis @ ''("'' @ fieldName @ ''", '' @ fieldAccessor @ '')'')
         else if SlogFunc analysis = SlogAny then
           (if IsPointer (Field analysis) then
              ''func() slog.Attr {'' @ nlTabs 4 @ ''if '' @ fieldAccessor @ '' == nil {''
              @ nlTabs 5 @ ''return slog.String("'' @ fieldName @ ''", "null")''
              @ nlTabs 4 @ ''}''
              @ nlTabs 4 @ ''return '' @ SlogFunc analysis @ ''("'' @ fieldName @ ''", *'' @ fieldAccessor @ '')''
              @ nlTabs 3 @ ''}()''
            else SlogFunc analysis @ ''("'' @ fieldName @ ''", '' @ fieldAccessor @ '')'')
         else SlogAny @ ''("'' @ fieldName @ ''", '' @ fieldAccessor @ '')'')\<close>

definition GenerateLogStatement :: "FieldAnalysis \<Rightarrow> string \<Rightarrow> string" where
  \<open>GenerateLogStatement analysis receiverName =
     (let fieldName = Name (Field analysis)
      in if Action analysis = ActionSkip then []
         else if Action analysis = ActionRedact then
           SlogFunc analysis @ ''("'' @ fieldName @ ''", "'' @ LogValue analysis @ ''")''
         else if Action analysis = ActionLog then
           generateNormalLogStatement analysis receiverName
         else SlogAny @ ''("'' @ fieldName @ ''", ''
              @ getFieldAccessor (Field analysis) receiverName @ '')'')\<close>

section \<open>Inputs of the repository's tests\<close>

text \<open>
  The configuration of \<open>TestAnalyzeField\<close>, its analyzer, and fields as the tests
  build them, with the zero value in every field the test leaves out.
\<close>

definition testConfig :: Config where
  "testConfig = \<lparr>Packages = [], RedactKeys = [''password''], RedactMessage = ''[HIDDEN]''\<rparr>"

definition testAnalyzer :: TypeAnalyzer where
  "testAnalyzer = NewTypeAnalyzer (Some testConfig)"

definition testField :: "string \<Rightarrow> string \<Rightarrow> string \<Rightarrow> bool \<Rightarrow> FieldInfo" where
  "testField name t logTag isPointer =
     \<lparr>Name = name, Type = t, Tag = [], LogTag = logTag, IsPointer = isPointer\<rparr>"

text \<open>Two records of \<open>TestHasLoggableFields\<close>.\<close>

definition allSkippedStruct :: StructInfo where
  "allSkippedStruct =
     \<lparr>StructName = ''TestStruct'', PackageName = [],
      Fields = [testField ''Field1'' ''string'' ''-'' False, testField ''Field2'' ''int'' ''-'' False],
      FilePath = []\<rparr>"

definition mixedStruct :: StructInfo where
  "mixedStruct =
     \<lparr>StructName = ''TestStruct'', PackageName = [],
      Fields = [testField ''ID'' ''int'' [] False, testField ''Notes'' ''string'' ''-'' False],
      FilePath = []\<rparr>"

text \<open>
  The configuration of \<open>TestConfigValidation\<close> as the test builds it, before \<open>validate\<close>
  has run, and a file system in which every package path exists.
\<close>

definition unvalidatedConfig :: Config where
  "unvalidatedConfig =
     \<lparr>Packages = [''.''], RedactKeys = [''Password'', ''SECRET''], RedactMessage = []\<rparr>"

definition okFileSystem :: FileSystem where
  "okFileSystem =
     \<lparr>IsAbs = (\<lambda>p. HasPrefix p ''/''), Abs = (\<lambda>p. Inr (''/work/'' @ p)),
      NotExist = (\<lambda>p. False)\<rparr>"

text \<open>Two configurations that hold a key with an upper-case letter.\<close>

definition mixedCaseConfig :: Config where
  "mixedCaseConfig =
     \<lparr>Packages = [''.''], RedactKeys = [''Password'', ''secret''], RedactMessage = ''[REDACTED]''\<rparr>"

definition upperOnlyConfig :: Config where
  "upperOnlyConfig =
     \<lparr>Packages = [''.''], RedactKeys = [''Password''], RedactMessage = ''[REDACTED]''\<rparr>"

text \<open>
  The file of \<open>TestHasOakDirective\<close>: package \<open>main\<close> with the struct \<open>User\<close>, under the
  comments of each test case; \<open>parseAs\<close> is a parser that accepts the unit and gives a
  given syntax tree.
\<close>

definition parseAs :: "File \<Rightarrow> string \<Rightarrow> string + File" where
  "parseAs file path = Inr file"

definition testFile :: "string list list \<Rightarrow> File" where
  "testFile comments =
     \<lparr>PkgName = ''main'', Comments = comments,
      Decls = [GenDecl tokTYPE
                 [TypeSpec ''User'' (StructType [([''Name''], Ident ''string'', None)])] []]\<rparr>"

section \<open>Notions of the specification\<close>

text \<open>
  The specification compares a field name with a trigger name case-insensitively: the
  two are the same once both are lowered.
\<close>

definition sameIgnoringCase :: "(string \<Rightarrow> string) \<Rightarrow> string \<Rightarrow> string \<Rightarrow> bool" where
  "sameIgnoringCase mapLower a b = (ToLower mapLower a = ToLower mapLower b)"

text \<open>
  The specification strips one leading pointer marker from a type signature when the
  signature has one, and names the integer types of every width.
\<close>

definition stripPointerMarker :: "string \<Rightarrow> string" where
  "stripPointerMarker t = (case t of [] \<Rightarrow> [] | c # r \<Rightarrow> if c = CHR ''*'' then r else t)"

definition integerTypes :: "string set" where
  "integerTypes = {''int'', ''int8'', ''int16'', ''int32'', ''int64'',
                   ''uint'', ''uint8'', ''uint16'', ''uint32'', ''uint64''}"

text \<open>
  The two branches that the specification requires in the emission for a nullable
  field: the branch for an absent reference, which emits the literal \<open>null\<close> with the
  string strategy, and the branch that dereferences once and emits with the selected
  strategy, the dereferenced value widened for the two numeric strategies.
\<close>

definition derefArgument :: "SlogFunction \<Rightarrow> string \<Rightarrow> string" where
  "derefArgument f accessor =
     (if f = SlogInt64 then ''int64(*'' @ accessor @ '')''
      else if f = SlogFloat64 then ''float64(*'' @ accessor @ '')''
      else ''*'' @ accessor)"

definition nullSentinelBranch :: "string \<Rightarrow> string \<Rightarrow> string" where
  \<open>nullSentinelBranch accessor name =
     ''if '' @ accessor @ '' == nil {''
     @ nlTabs 5 @ ''return slog.String("'' @ name @ ''", "null")''
     @ nlTabs 4 @ ''}''\<close>

definition dereferencedBranch :: "SlogFunction \<Rightarrow> string \<Rightarrow> string \<Rightarrow> string" where
  \<open>dereferencedBranch f accessor name =
     ''return '' @ f @ ''("'' @ name @ ''", '' @ derefArgument f accessor @ '')''\<close>

text \<open>
  The six source shapes that the specification's table of type signatures lists: a
  plain identifier, a reference, a sequence, a fixed-length array, a mapping and a
  qualified external reference.
\<close>

fun listedShape :: "expr \<Rightarrow> bool" where
  "listedShape (Ident name) = True"
| "listedShape (StarExpr x) = True"
| "listedShape (ArrayType len elt) = True"
| "listedShape (MapType key val) = True"
| "listedShape (SelectorExpr x sel) = True"
| "listedShape _ = False"

text \<open>
  The content of a metadata annotation as the specification describes it: tokens
  separated by single spaces.
\<close>

fun joinTokens :: "string list \<Rightarrow> string" where
  "joinTokens [] = []"
| "joinTokens [t] = t"
| "joinTokens (t # ts) = t @ '' '' @ joinTokens ts"

text \<open>
  A token that carries the log directive the way \<open>extractLogTag\<close> looks for it: the key
  \<open>log\<close>, a colon and a value between double quotes. \<open>quotedValue\<close> is the text between
  the quotes, and \<open>firstQuotedLogValue\<close> is the value of the first such token of a
  list, or the empty string if the list has none.
\<close>

definition quotedLogToken :: "string \<Rightarrow> bool" where
  \<open>quotedLogToken t = (HasPrefix t ''log:"'' \<and> 6 \<le> length t \<and> last t = CHR 0x22)\<close>

definition quotedValue :: "string \<Rightarrow> string" where
  "quotedValue t = take (length t - 6) (drop 5 t)"

definition firstQuotedLogValue :: "string list \<Rightarrow> string" where
  "firstQuotedLogValue ts = (case filter quotedLogToken ts of [] \<Rightarrow> [] | t # _ \<Rightarrow> quotedValue t)"

text \<open>
  The text in which the specification looks for the generation marker: the comment
  without surrounding white space and without its delimiters (\<open>//\<close>, or \<open>/*\<close> and \<open>*/\<close>),
  trimmed; the comment carries the marker when the directive token is a prefix of that
  text.
\<close>

definition stripDelimiters :: "string \<Rightarrow> string" where
  "stripDelimiters t =
     (if HasPrefix t ''//'' then drop 2 t
      else if HasPrefix t ''/*'' \<and> HasSuffix t ''*/'' then take (length t - 4) (drop 2 t)
      else t)"

definition directiveText :: "string \<Rightarrow> string" where
  "directiveText comment = TrimSpace (stripDelimiters (TrimSpace comment))"

definition isDirectiveComment :: "string \<Rightarrow> bool" where
  "isDirectiveComment comment = HasPrefix (directiveText comment) ''go:generate oak''"

text \<open>
  The comments of a syntactically valid source unit, as the Go scanner delivers them: a
  line comment begins with \<open>//\<close>, a block comment begins with \<open>/*\<close> and ends with \<open>*/\<close>
  (so it has four bytes at least; an unterminated comment is a syntax error).
\<close>

definition scannedComment :: "string \<Rightarrow> bool" where
  "scannedComment comment =
     (HasPrefix comment ''//''
      \<or> (HasPrefix comment ''/*'' \<and> HasSuffix comment ''*/'' \<and> 4 \<le> length comment))"

section \<open>Facts about the string functions\<close>

lemma HasPrefix_prefix: "HasPrefix s p \<longleftrightarrow> prefix p s"
proof
  assume "HasPrefix s p"
  then have "take (length p) s = p" by (simp add: HasPrefix_def)
  then have "s = p @ drop (length p) s" by (metis append_take_drop_id)
  then show "prefix p s" by (rule prefixI)
next
  assume "prefix p s"
  then show "HasPrefix s p" by (auto simp: HasPrefix_def prefix_def)
qed

lemma HasSuffix_suffix: "HasSuffix s p \<longleftrightarrow> suffix p s"
proof
  assume "HasSuffix s p"
  then have "drop (length s - length p) s = p" by (simp add: HasSuffix_def)
  then have "s = take (length s - length p) s @ p" by (metis append_take_drop_id)
  then show "suffix p s" by (rule suffixI)
next
  assume "suffix p s"
  then show "HasSuffix s p" by (auto simp: HasSuffix_def suffix_def)
qed

lemma lowerByte_not_upper: "\<not> isUpper (lowerByte c)"
proof (cases "isUpper c")
  case True
  then have "(of_char (lowerByte c) :: nat) = of_char c + 32"
    by (simp add: lowerByte_def isUpper_def)
  with True show ?thesis by (simp add: isUpper_def)
next
  case False
  then show ?thesis by (simp add: lowerByte_def)
qed

lemma ToLower_Password: "ToLower mapLower ''Password'' = ''password''"
  by (simp add: ToLower_def isASCII_def hasUpper_def isUpper_def lowerByte_def char_of_eq_iff)

lemma ToLower_PASSWORD: "ToLower mapLower ''PASSWORD'' = ''password''"
  by (simp add: ToLower_def isASCII_def hasUpper_def isUpper_def lowerByte_def char_of_eq_iff)

lemma ToLower_password: "ToLower mapLower ''password'' = ''password''"
  by (simp add: ToLower_def isASCII_def hasUpper_def isUpper_def)

section \<open>Facts about trimming\<close>

lemma spaceRunes_bytes: "w \<in> set spaceRunes \<Longrightarrow> c \<in> set w \<Longrightarrow> spaceRuneByte c"
  by (auto simp: spaceRunes_def spaceRuneByte_def)

lemma spaceRunes_nonempty: "w \<in> set spaceRunes \<Longrightarrow> w \<noteq> []"
  by (auto simp: spaceRunes_def)

lemma leadingSpace_cases:
  "leadingSpace s = 0 \<or> (\<exists>w\<in>set spaceRunes. HasPrefix s w \<and> leadingSpace s = length w)"
proof (cases "filter (\<lambda>w. HasPrefix s w) spaceRunes")
  case Nil
  then show ?thesis by (simp add: leadingSpace_def)
next
  case (Cons w ws)
  then have "w \<in> set (filter (\<lambda>w. HasPrefix s w) spaceRunes)" by simp
  then have "w \<in> set spaceRunes" and "HasPrefix s w" by simp_all
  moreover from Cons have "leadingSpace s = length w" by (simp add: leadingSpace_def)
  ultimately show ?thesis by blast
qed

lemma trailingSpace_cases:
  "trailingSpace s = 0 \<or> (\<exists>w\<in>set spaceRunes. HasSuffix s w \<and> trailingSpace s = length w)"
proof (cases "filter (\<lambda>w. HasSuffix s w) spaceRunes")
  case Nil
  then show ?thesis by (simp add: trailingSpace_def)
next
  case (Cons w ws)
  then have "w \<in> set (filter (\<lambda>w. HasSuffix s w) spaceRunes)" by simp
  then have "w \<in> set spaceRunes" and "HasSuffix s w" by simp_all
  moreover from Cons have "trailingSpace s = length w" by (simp add: trailingSpace_def)
  ultimately show ?thesis by blast
qed

lemma leadingSpace_zero:
  assumes "s \<noteq> []" and "\<not> spaceRuneByte (hd s)"
  shows "leadingSpace s = 0"
proof (rule ccontr)
  assume "leadingSpace s \<noteq> 0"
  then obtain w where w: "w \<in> set spaceRunes" "HasPrefix s w"
    using leadingSpace_cases [of s] by auto
  then have "w \<noteq> []" by (simp add: spaceRunes_nonempty)
  with w(2) assms(1) have "hd w = hd s"
    by (auto simp: HasPrefix_prefix prefix_def)
  moreover have "hd w \<in> set w" using \<open>w \<noteq> []\<close> by simp
  ultimately show False using spaceRunes_bytes [OF w(1)] assms(2) by metis
qed

lemma trimLeftSpace_id: "s \<noteq> [] \<Longrightarrow> \<not> spaceRuneByte (hd s) \<Longrightarrow> trimLeftSpace s = s"
  by (simp add: trimLeftSpace.simps leadingSpace_zero)

text \<open>Trimming on the right never reaches into a text that ends in a byte of no space.\<close>

lemma trimRightSpace_keeps:
  assumes "p \<noteq> []" and "\<not> spaceRuneByte (last p)"
  shows "\<exists>r'. trimRightSpace (p @ r) = p @ r'"
proof (induction "length r" arbitrary: r rule: less_induct)
  case less
  show ?case
  proof (cases "trailingSpace (p @ r) = 0")
    case True
    then show ?thesis by (simp add: trimRightSpace.simps)
  next
    case False
    then obtain w where w: "w \<in> set spaceRunes" "HasSuffix (p @ r) w"
      and k: "trailingSpace (p @ r) = length w"
      using trailingSpace_cases [of "p @ r"] by auto
    have wne: "w \<noteq> []" using w(1) by (rule spaceRunes_nonempty)
    have "suffix w (p @ r)" using w(2) by (simp add: HasSuffix_suffix)
    then have "suffix w r \<or> (\<exists>w1. w1 \<noteq> [] \<and> w = w1 @ r \<and> suffix w1 p)"
      by (auto simp: suffix_append)
    then have sr: "suffix w r"
    proof
      assume "suffix w r" then show ?thesis .
    next
      assume "\<exists>w1. w1 \<noteq> [] \<and> w = w1 @ r \<and> suffix w1 p"
      then obtain w1 where w1: "w1 \<noteq> []" "w = w1 @ r" "suffix w1 p" by blast
      then have "last w1 = last p" using assms(1) by (auto simp: suffix_def)
      moreover have "last w1 \<in> set w" using w1 by simp
      ultimately have "spaceRuneByte (last p)" using spaceRunes_bytes [OF w(1)] by metis
      with assms(2) show ?thesis by simp
    qed
    then obtain r0 where r0: "r = r0 @ w" by (auto simp: suffix_def)
    have "take (length (p @ r) - trailingSpace (p @ r)) (p @ r) = p @ r0"
      using k r0 by simp
    moreover have "length r0 < length r" using r0 wne by simp
    ultimately show ?thesis
      using less [of r0] False by (simp add: trimRightSpace.simps [of "p @ r"])
  qed
qed

lemma TrimSpace_keeps:
  assumes "p \<noteq> []" and "\<not> spaceRuneByte (hd p)" and "\<not> spaceRuneByte (last p)"
  shows "\<exists>r'. TrimSpace (p @ r) = p @ r'"
proof -
  have "trimLeftSpace (p @ r) = p @ r"
    using assms(1,2) by (intro trimLeftSpace_id) simp_all
  then show ?thesis
    using trimRightSpace_keeps [OF assms(1,3), of r] by (simp add: TrimSpace_def)
qed

lemma trailingSpace_zero:
  assumes "s \<noteq> []" and "\<not> spaceRuneByte (last s)"
  shows "trailingSpace s = 0"
proof (rule ccontr)
  assume "trailingSpace s \<noteq> 0"
  then obtain w where w: "w \<in> set spaceRunes" "HasSuffix s w"
    using trailingSpace_cases [of s] by auto
  then have "w \<noteq> []" by (simp add: spaceRunes_nonempty)
  with w(2) assms(1) have "last w = last s"
    by (auto simp: HasSuffix_suffix suffix_def)
  moreover have "last w \<in> set w" using \<open>w \<noteq> []\<close> by simp
  ultimately show False using spaceRunes_bytes [OF w(1)] assms(2) by metis
qed

lemma TrimSpace_id:
  assumes "s \<noteq> []" and "\<not> spaceRuneByte (hd s)" and "\<not> spaceRuneByte (last s)"
  shows "TrimSpace s = s"
  using assms
  by (simp add: TrimSpace_def trimLeftSpace_id trimRightSpace.simps [of s] trailingSpace_zero)


lemma leadingSpace_nonzero:
  assumes "w \<in> set spaceRunes" and "HasPrefix s w"
  shows "leadingSpace s \<noteq> 0"
proof -
  from assms have "w \<in> set (filter (\<lambda>w. HasPrefix s w) spaceRunes)" by simp
  then obtain w' ws where f: "filter (\<lambda>w. HasPrefix s w) spaceRunes = w' # ws"
    by (cases "filter (\<lambda>w. HasPrefix s w) spaceRunes") auto
  then have "w' \<in> set (filter (\<lambda>w. HasPrefix s w) spaceRunes)" by simp
  then have "w' \<noteq> []" by (simp add: spaceRunes_nonempty)
  with f show ?thesis by (simp add: leadingSpace_def)
qed

lemma leadingSpace_trimLeftSpace: "leadingSpace (trimLeftSpace s) = 0"
  by (induction s rule: trimLeftSpace.induct) (simp add: trimLeftSpace.simps)

lemma trailingSpace_trimRightSpace: "trailingSpace (trimRightSpace s) = 0"
  by (induction s rule: trimRightSpace.induct) (simp add: trimRightSpace.simps)

lemma trimRightSpace_prefix: "prefix (trimRightSpace s) s"
proof (induction s rule: trimRightSpace.induct)
  case (1 s)
  show ?case
  proof (cases "trailingSpace s = 0")
    case True
    then show ?thesis by (simp add: trimRightSpace.simps)
  next
    case False
    with 1 have "prefix (trimRightSpace (take (length s - trailingSpace s) s))
                   (take (length s - trailingSpace s) s)" by simp
    then have "prefix (trimRightSpace (take (length s - trailingSpace s) s)) s"
      using take_is_prefix prefix_order.trans by blast
    with False show ?thesis by (simp add: trimRightSpace.simps [of s])
  qed
qed

text \<open>Trimmed text has no space left to trim.\<close>

lemma TrimSpace_idem: "TrimSpace (TrimSpace s) = TrimSpace s"
proof -
  let ?u = "trimLeftSpace s"
  let ?v = "trimRightSpace ?u"
  have "leadingSpace ?v = 0"
  proof (rule ccontr)
    assume "leadingSpace ?v \<noteq> 0"
    then obtain w where w: "w \<in> set spaceRunes" "HasPrefix ?v w"
      using leadingSpace_cases [of ?v] by auto
    then have "prefix w ?u"
      using trimRightSpace_prefix [of ?u] prefix_order.trans by (auto simp: HasPrefix_prefix)
    then have "leadingSpace ?u \<noteq> 0"
      using w(1) by (intro leadingSpace_nonzero [of w]) (simp_all add: HasPrefix_prefix)
    then show False by (simp add: leadingSpace_trimLeftSpace)
  qed
  then have "trimLeftSpace ?v = ?v" by (simp add: trimLeftSpace.simps)
  moreover have "trimRightSpace ?v = ?v"
    by (simp add: trimRightSpace.simps [of ?v] trailingSpace_trimRightSpace)
  ultimately show ?thesis by (simp add: TrimSpace_def)
qed

lemma slash_no_space: "\<not> spaceRuneByte CHR ''/''"
  by (simp add: spaceRuneByte_def)

lemma scannedComment_no_panic:
  assumes "scannedComment c"
  shows "TrimSpace c \<noteq> ''/*/''"
proof (cases "HasPrefix c ''//''")
  case True
  then obtain r where "c = ''//'' @ r" by (auto simp: HasPrefix_prefix prefix_def)
  moreover obtain r' where "TrimSpace (''//'' @ r) = ''//'' @ r'"
    using TrimSpace_keeps [of "''//''" r] slash_no_space by auto
  ultimately show ?thesis by auto
next
  case False
  with assms have b: "HasPrefix c ''/*''" "HasSuffix c ''*/''" "4 \<le> length c"
    by (auto simp: scannedComment_def)
  then have ne: "c \<noteq> []" by auto
  from b(1) have "hd c = CHR ''/''" by (auto simp: HasPrefix_prefix prefix_def)
  moreover from b(2) have "last c = CHR ''/''" by (auto simp: HasSuffix_suffix suffix_def)
  ultimately have "TrimSpace c = c" using ne slash_no_space by (simp add: TrimSpace_id)
  with b(3) show ?thesis by auto
qed

lemma block_of_three:
  assumes "HasPrefix t ''/*''" and "HasSuffix t ''*/''" and "length t < 4"
  shows "t = ''/*/''"
proof -
  from assms(1) obtain r where r: "t = ''/*'' @ r" by (auto simp: HasPrefix_prefix prefix_def)
  with assms(3) have "length r < 2" by simp
  then consider "r = []" | "\<exists>x. r = [x]"
    by (cases r) (auto simp: length_Suc_conv)
  then show ?thesis
  proof cases
    case 1
    with r assms(2) show ?thesis by (simp add: HasSuffix_def)
  next
    case 2
    then obtain x where "r = [x]" by blast
    with r assms(2) show ?thesis by (simp add: HasSuffix_def)
  qed
qed

lemma commentHasDirective_eq:
  assumes "TrimSpace c \<noteq> ''/*/''"
  shows "commentHasDirective c = Inr (isDirectiveComment c)"
proof -
  let ?t = "TrimSpace c"
  show ?thesis
  proof (cases "HasPrefix ?t ''//''")
    case True
    then have "2 \<le> length ?t" by (simp add: HasPrefix_def)
    then have "slice ?t 2 (int (length ?t)) = Inr (drop 2 ?t)"
      by (simp add: slice_def)
    with True show ?thesis
      by (simp add: commentHasDirective_def isDirectiveComment_def directiveText_def
            stripDelimiters_def Let_def)
  next
    case False
    show ?thesis
    proof (cases "HasPrefix ?t ''/*'' \<and> HasSuffix ?t ''*/''")
      case True
      with assms have "4 \<le> length ?t" using block_of_three [of ?t] by fastforce
      then have "slice ?t 2 (int (length ?t) - 2) = Inr (take (length ?t - 4) (drop 2 ?t))"
        by (simp add: slice_def nat_diff_distrib')
      with True False show ?thesis
        by (simp add: commentHasDirective_def isDirectiveComment_def directiveText_def
              stripDelimiters_def Let_def)
    next
      case notblock: False
      with False show ?thesis
        by (auto simp add: commentHasDirective_def isDirectiveComment_def directiveText_def
              stripDelimiters_def Let_def TrimSpace_idem)
    qed
  qed
qed

lemma groupHasDirective_eq:
  "\<forall>c\<in>set cs. TrimSpace c \<noteq> ''/*/'' \<Longrightarrow>
     groupHasDirective cs = Inr (\<exists>c\<in>set cs. isDirectiveComment c)"
  by (induction cs) (auto simp: commentHasDirective_eq split: bool.splits)

lemma groupsHaveDirective_eq:
  "\<forall>g\<in>set gs. \<forall>c\<in>set g. TrimSpace c \<noteq> ''/*/'' \<Longrightarrow>
     groupsHaveDirective gs = Inr (\<exists>g\<in>set gs. \<exists>c\<in>set g. isDirectiveComment c)"
  by (induction gs) (auto simp: groupHasDirective_eq split: bool.splits)

lemma hasOakDirective_eq:
  "\<forall>g\<in>set (Comments file). \<forall>c\<in>set g. scannedComment c \<Longrightarrow>
     hasOakDirective file = Inr (\<exists>g\<in>set (Comments file). \<exists>c\<in>set g. isDirectiveComment c)"
  by (simp add: hasOakDirective_def groupsHaveDirective_eq scannedComment_no_panic)

lemma directive_with_arguments: "isDirectiveComment (''//go:generate oak'' @ args)"
proof -
  have g: "\<not> spaceRuneByte CHR ''g''" and k: "\<not> spaceRuneByte CHR ''k''"
    by (simp_all add: spaceRuneByte_def)
  obtain r1 where r1: "TrimSpace (''//go:generate oak'' @ args) = ''//go:generate oak'' @ r1"
    using TrimSpace_keeps [of "''//go:generate oak''" args] slash_no_space k by auto
  obtain r2 where r2: "TrimSpace (''go:generate oak'' @ r1) = ''go:generate oak'' @ r2"
    using TrimSpace_keeps [of "''go:generate oak''" r1] g k by auto
  have "stripDelimiters (''//go:generate oak'' @ r1) = ''go:generate oak'' @ r1"
    by (simp add: stripDelimiters_def HasPrefix_def)
  with r1 r2 show ?thesis
    by (simp add: isDirectiveComment_def directiveText_def HasPrefix_def)
qed


lemma not_directive_mockgen: "\<not> isDirectiveComment ''//go:generate mockgen''"
proof -
  have "TrimSpace ''//go:generate mockgen'' = ''//go:generate mockgen''"
    by (rule TrimSpace_id) (simp_all add: spaceRuneByte_def)
  moreover have "TrimSpace ''go:generate mockgen'' = ''go:generate mockgen''"
    by (rule TrimSpace_id) (simp_all add: spaceRuneByte_def)
  ultimately show ?thesis
    by (simp add: isDirectiveComment_def directiveText_def stripDelimiters_def HasPrefix_def)
qed

section \<open>Facts about the extractor\<close>

lemma Split_no_sep: "sep \<notin> set t \<Longrightarrow> Split t sep = [t]"
  by (induction t) auto

lemma Split_append_sep:
  "sep \<notin> set t \<Longrightarrow> Split (t @ sep # rest) sep = t # Split rest sep"
  by (induction t) auto

text \<open>Splitting at the spaces gives back the tokens that were joined.\<close>

lemma Split_joinTokens:
  "ts \<noteq> [] \<Longrightarrow> \<forall>t\<in>set ts. CHR '' '' \<notin> set t \<Longrightarrow> Split (joinTokens ts) CHR '' '' = ts"
proof (induction ts rule: joinTokens.induct)
  case 1
  then show ?case by simp
next
  case (2 t)
  then show ?case by (simp add: Split_no_sep)
next
  case (3 t v va)
  then show ?case by (simp add: Split_append_sep)
qed

text \<open>
  One step of the loop of \<open>extractLogTag\<close>: a part is taken when it is a quoted log
  token, and passed over otherwise, also when its key is \<open>log\<close>.
\<close>

lemma findLogTag_step:
  "findLogTag (part # parts) = (if quotedLogToken part then quotedValue part else findLogTag parts)"
proof (cases "HasPrefix part ''log:''")
  case False
  then have "\<not> quotedLogToken part"
    by (auto simp: quotedLogToken_def HasPrefix_prefix prefix_def)
  with False show ?thesis by simp
next
  case True
  then obtain r where r: "part = ''log:'' @ r" by (auto simp: HasPrefix_prefix prefix_def)
  have idx: "Index part '':'' = 3" by (simp add: r HasPrefix_def)
  show ?thesis
  proof (cases r)
    case Nil
    with r show ?thesis by (simp add: quotedLogToken_def HasPrefix_def)
  next
    case (Cons x xs)
    have q: "quotedLogToken part \<longleftrightarrow> (x = CHR 0x22 \<and> xs \<noteq> [] \<and> last xs = CHR 0x22)"
      using r Cons by (auto simp: quotedLogToken_def HasPrefix_def Suc_le_eq)
    have l: "xs \<noteq> [] \<Longrightarrow> (x # xs) ! length xs = last xs"
      by (metis last_conv_nth length_Cons diff_Suc_1 last_ConsR list.distinct(1))
    have "findLogTag (part # parts) =
            (if 2 \<le> length (x # xs) \<and> (x # xs) ! 0 = CHR 0x22
                \<and> (x # xs) ! (length (x # xs) - 1) = CHR 0x22
             then take (length (x # xs) - 2) (drop 1 (x # xs)) else findLogTag parts)"
      using True idx r Cons by (simp add: Let_def)
    also have "\<dots> = (if quotedLogToken part then quotedValue part else findLogTag parts)"
    proof (cases "xs = []")
      case True
      then show ?thesis using q by simp
    next
      case False
      then have "2 \<le> length (x # xs)" by (cases xs) simp_all
      moreover have "quotedValue part = take (length xs - 1) xs"
        using r Cons by (simp add: quotedValue_def)
      ultimately show ?thesis using q l False by auto
    qed
    finally show ?thesis .
  qed
qed

lemma findLogTag_first: "findLogTag parts = firstQuotedLogValue parts"
proof (induction parts)
  case Nil
  show ?case by (simp add: firstQuotedLogValue_def)
next
  case (Cons part parts)
  then show ?case by (simp only: findLogTag_step) (simp add: firstQuotedLogValue_def)
qed

lemma quotedLogToken_intro: \<open>quotedLogToken (''log:"'' @ v @ ''"'')\<close>
  by (simp add: quotedLogToken_def HasPrefix_def)

lemma quotedValue_intro: \<open>quotedValue (''log:"'' @ v @ ''"'') = v\<close>
  by (simp add: quotedValue_def)

lemma firstQuotedLogValue_append:
  \<open>\<forall>t\<in>set pre. \<not> quotedLogToken t \<Longrightarrow>
     firstQuotedLogValue (pre @ (''log:"'' @ v @ ''"'') # post) = v\<close>
proof -
  assume "\<forall>t\<in>set pre. \<not> quotedLogToken t"
  then have "filter quotedLogToken pre = []" by (simp add: filter_empty_conv)
  then show ?thesis
    unfolding firstQuotedLogValue_def
    by (simp only: filter_append filter.simps quotedLogToken_intro if_True append_Nil
          list.case quotedValue_intro)
qed

lemma firstQuotedLogValue_none:
  "\<forall>t\<in>set ts. \<not> quotedLogToken t \<Longrightarrow> firstQuotedLogValue ts = []"
  by (simp add: firstQuotedLogValue_def filter_empty_conv)


lemma extractLogTag_backticks:
  "extractLogTag (CHR 0x60 # body @ [CHR 0x60]) = findLogTag (Split body CHR '' '')"
  by (simp add: extractLogTag_def nth_append)

section \<open>Facts about the configuration\<close>

lemma matchRedactKey_set: "matchRedactKey fieldLower keys \<longleftrightarrow> fieldLower \<in> set keys"
  by (induction keys) auto

lemma ShouldRedactField_set:
  "ShouldRedactField mapLower c fieldName \<longleftrightarrow> ToLower mapLower fieldName \<in> set (RedactKeys c)"
  by (simp add: ShouldRedactField_def matchRedactKey_set)

lemma ToLower_SECRET: "ToLower mapLower ''SECRET'' = ''secret''"
  by (simp add: ToLower_def isASCII_def hasUpper_def isUpper_def lowerByte_def char_of_eq_iff)

text \<open>The loop of \<open>validate\<close> over the indices of the keys lowers every key.\<close>

lemma fold_update_take:
  "n \<le> length ks \<Longrightarrow>
     fold (\<lambda>i ks. ks[i := f (ks ! i)]) [0 ..< n] ks = map f (take n ks) @ drop n ks"
proof (induction n)
  case 0
  then show ?case by simp
next
  case (Suc n)
  then have n: "n < length ks" by simp
  have "fold (\<lambda>i ks. ks[i := f (ks ! i)]) [0 ..< Suc n] ks
          = (map f (take n ks) @ drop n ks)[n := f ((map f (take n ks) @ drop n ks) ! n)]"
    using Suc by simp
  also have "(map f (take n ks) @ drop n ks) ! n = ks ! n"
    using n by (simp add: nth_append)
  also have "(map f (take n ks) @ drop n ks)[n := f (ks ! n)]
          = map f (take n ks) @ (drop n ks)[0 := f (ks ! n)]"
    using n by (simp add: list_update_append)
  also have "(drop n ks)[0 := f (ks ! n)] = f (ks ! n) # drop (Suc n) ks"
    using n by (simp add: Cons_nth_drop_Suc [symmetric])
  also have "map f (take n ks) @ f (ks ! n) # drop (Suc n) ks
          = map f (take (Suc n) ks) @ drop (Suc n) ks"
    using n by (simp add: take_Suc_conv_app_nth)
  finally show ?case .
qed

lemma validate_fst:
  "fst (validate mapLower fs c)
     = c\<lparr>RedactKeys := map (ToLower mapLower) (RedactKeys c),
         RedactMessage := (if RedactMessage c = [] then ''[REDACTED]'' else RedactMessage c)\<rparr>"
  by (simp add: validate_def Let_def fold_update_take)

lemma validate_RedactKeys:
  "RedactKeys (fst (validate mapLower fs c)) = map (ToLower mapLower) (RedactKeys c)"
  by (simp add: validate_fst)

lemma ToLower_secret: "ToLower mapLower ''secret'' = ''secret''"
  by (simp add: ToLower_def isASCII_def hasUpper_def isUpper_def)

lemma hasUpper_examples:
  "hasUpper ''Password''" "hasUpper ''SECRET''" "\<not> hasUpper ''password''" "\<not> hasUpper ''secret''"
  by (simp_all add: hasUpper_def isUpper_def)

lemma map_lowerByte_no_upper: "\<not> hasUpper (map lowerByte s)"
  by (simp add: hasUpper_def list_ex_iff lowerByte_not_upper)

text \<open>
  If the Unicode path never yields an ASCII capital (the lower-case mapping of no rune
  is one), no lowered string holds one.
\<close>

lemma ToLower_no_upper:
  "\<forall>s. \<not> hasUpper (mapLower s) \<Longrightarrow> \<not> hasUpper (ToLower mapLower s)"
  by (auto simp: ToLower_def hasUpper_def list_ex_iff lowerByte_not_upper)

section \<open>Facts about the policy engine\<close>

lemma Action_distinct:
  "ActionLog \<noteq> ActionRedact" "ActionLog \<noteq> ActionSkip" "ActionRedact \<noteq> ActionSkip"
  "ActionRedact \<noteq> ActionLog" "ActionSkip \<noteq> ActionLog" "ActionSkip \<noteq> ActionRedact"
  by (simp_all add: ActionLog_def ActionRedact_def ActionSkip_def)

text \<open>With a configuration, \<open>AnalyzeField\<close> returns, and the three rules decide in order.\<close>

lemma AnalyzeField_Some:
  "config ta = Some c \<Longrightarrow>
     AnalyzeField mapLower ta field =
       Inr (if LogTag field = ''-''
            then \<lparr>Field = field, Action = ActionSkip, SlogFunc = [], LogValue = []\<rparr>
            else if LogTag field = ''redact'' \<or> ShouldRedactField mapLower c (Name field)
            then \<lparr>Field = field, Action = ActionRedact, SlogFunc = SlogString,
                   LogValue = RedactMessage c\<rparr>
            else \<lparr>Field = field, Action = ActionLog, SlogFunc = getSlogFunction field,
                   LogValue = []\<rparr>)"
  by (simp add: AnalyzeField_def shouldRedactField_def)

lemma AnalyzeField_Field:
  "AnalyzeField mapLower ta field = Inr a \<Longrightarrow> Field a = field"
  by (auto simp: AnalyzeField_def Let_def shouldRedactField_def
           split: if_splits sum.splits option.splits bool.splits)

lemma anyNotSkipped_iff: "anyNotSkipped analyses \<longleftrightarrow> (\<exists>a\<in>set analyses. Action a \<noteq> ActionSkip)"
  by (induction analyses) auto

lemma analyzeFields_Some:
  "config ta = Some c \<Longrightarrow>
     analyzeFields mapLower ta fs acc = Inr (acc @ map (\<lambda>f. projr (AnalyzeField mapLower ta f)) fs)"
  by (induction fs arbitrary: acc) (simp_all add: AnalyzeField_Some)

lemma analyzeFields_all_skip:
  "\<forall>f\<in>set fs. LogTag f = ''-'' \<Longrightarrow>
     analyzeFields mapLower ta fs acc
       = Inr (acc @ map (\<lambda>f. \<lparr>Field = f, Action = ActionSkip, SlogFunc = [], LogValue = []\<rparr>) fs)"
  by (induction fs arbitrary: acc) (simp_all add: AnalyzeField_def)

lemma HasLoggableFields_Some:
  assumes "config ta = Some c"
  shows "HasLoggableFields mapLower ta s
           = Inr (\<exists>f\<in>set (Fields s). \<exists>a. AnalyzeField mapLower ta f = Inr a \<and> Action a \<noteq> ActionSkip)"
proof -
  have "analyzeFields mapLower ta (Fields s) []
          = Inr (map (\<lambda>f. projr (AnalyzeField mapLower ta f)) (Fields s))"
    using analyzeFields_Some [OF assms, of mapLower "Fields s" "[]"] by simp
  moreover have "\<And>f. \<exists>a. AnalyzeField mapLower ta f = Inr a"
    using AnalyzeField_Some [OF assms] by blast
  then have "\<And>f P. (\<exists>a. AnalyzeField mapLower ta f = Inr a \<and> P a)
                 \<longleftrightarrow> P (projr (AnalyzeField mapLower ta f))"
    by (metis sum.sel(2))
  ultimately show ?thesis
    by (simp add: HasLoggableFields_def AnalyzeStruct_def anyNotSkipped_iff)
qed

lemma HasLoggableFields_all_skip:
  "\<forall>f\<in>set (Fields s). LogTag f = ''-'' \<Longrightarrow> HasLoggableFields mapLower ta s = Inr False"
  by (simp add: HasLoggableFields_def AnalyzeStruct_def analyzeFields_all_skip anyNotSkipped_iff)

lemma GenerateLogStatement_skip:
  "Action a = ActionSkip \<Longrightarrow> GenerateLogStatement a receiverName = []"
  by (simp add: GenerateLogStatement_def)

lemma Slog_distinct:
  "SlogInt64 \<noteq> SlogString" "SlogInt64 \<noteq> SlogBool" "SlogInt64 \<noteq> SlogFloat64" "SlogInt64 \<noteq> SlogAny"
  "SlogString \<noteq> SlogBool" "SlogString \<noteq> SlogFloat64" "SlogString \<noteq> SlogAny"
  "SlogBool \<noteq> SlogFloat64" "SlogBool \<noteq> SlogAny" "SlogFloat64 \<noteq> SlogAny"
  "SlogString \<noteq> SlogInt64" "SlogBool \<noteq> SlogInt64" "SlogFloat64 \<noteq> SlogInt64" "SlogAny \<noteq> SlogInt64"
  "SlogBool \<noteq> SlogString" "SlogFloat64 \<noteq> SlogString" "SlogAny \<noteq> SlogString"
  "SlogFloat64 \<noteq> SlogBool" "SlogAny \<noteq> SlogBool" "SlogAny \<noteq> SlogFloat64"
  by (simp_all add: SlogInt64_def SlogString_def SlogBool_def SlogFloat64_def SlogAny_def)

lemma AnalyzeField_log:
  "AnalyzeField mapLower ta field = Inr a \<Longrightarrow> Action a = ActionLog \<Longrightarrow>
     SlogFunc a = getSlogFunction field"
  by (auto simp: AnalyzeField_def Let_def shouldRedactField_def Action_distinct
           split: if_splits sum.splits option.splits bool.splits)

lemma GenerateLogStatement_redact:
  \<open>Action a = ActionRedact \<Longrightarrow>
     GenerateLogStatement a receiverName
       = SlogFunc a @ ''("'' @ Name (Field a) @ ''", "'' @ LogValue a @ ''")''\<close>
  by (simp add: GenerateLogStatement_def Action_distinct)

lemma TrimPrefix_star: "TrimPrefix t ''*'' = stripPointerMarker t"
  by (cases t) (auto simp: TrimPrefix_def HasPrefix_def stripPointerMarker_def)

lemma getSlogFunction_table:
  "getSlogFunction field =
     (let base = (if IsPointer field then stripPointerMarker (Type field) else Type field)
      in if base \<in> integerTypes then SlogInt64
         else if base = ''string'' then SlogString
         else if base = ''bool'' then SlogBool
         else if base \<in> {''float32'', ''float64''} then SlogFloat64
         else SlogAny)"
  by (simp add: getSlogFunction_def TrimPrefix_star integerTypes_def Let_def)

lemma getSlogFunction_five:
  "getSlogFunction field \<in> {SlogInt64, SlogString, SlogBool, SlogFloat64, SlogAny}"
  by (simp add: getSlogFunction_def Let_def)

text \<open>Where the pointer flag agrees with the marker, the flag need not be asked.\<close>

lemma flag_agrees_with_marker:
  "(IsPointer field \<longleftrightarrow> HasPrefix (Type field) ''*'') \<Longrightarrow>
   (if IsPointer field then stripPointerMarker (Type field) else Type field)
     = stripPointerMarker (Type field)"
  by (cases "Type field") (auto simp: stripPointerMarker_def HasPrefix_def)

text \<open>The four templates for a pointer field have one shape.\<close>

lemma generateNormalLogStatement_pointer:
  assumes "IsPointer (Field a)"
    and "SlogFunc a \<in> {SlogInt64, SlogString, SlogBool, SlogFloat64, SlogAny}"
  shows "generateNormalLogStatement a receiverName
           = ''func() slog.Attr {'' @ nlTabs 4
             @ nullSentinelBranch (getFieldAccessor (Field a) receiverName) (Name (Field a))
             @ nlTabs 4
             @ dereferencedBranch (SlogFunc a) (getFieldAccessor (Field a) receiverName)
                 (Name (Field a))
             @ nlTabs 3 @ ''}()''"
proof -
  consider "SlogFunc a = SlogInt64" | "SlogFunc a = SlogFloat64" | "SlogFunc a = SlogString"
    | "SlogFunc a = SlogBool" | "SlogFunc a = SlogAny"
    using assms(2) by auto
  then show ?thesis
  proof cases
    case 1
    with assms(1) show ?thesis
      by (simp add: generateNormalLogStatement_def Let_def nullSentinelBranch_def
            dereferencedBranch_def derefArgument_def) (simp add: SlogInt64_def)
  next
    case 2
    with assms(1) show ?thesis
      by (simp add: generateNormalLogStatement_def Let_def nullSentinelBranch_def
            dereferencedBranch_def derefArgument_def Slog_distinct) (simp add: SlogFloat64_def)
  next
    case 3
    with assms(1) show ?thesis
      by (simp add: generateNormalLogStatement_def Let_def nullSentinelBranch_def
            dereferencedBranch_def derefArgument_def Slog_distinct)
  next
    case 4
    with assms(1) show ?thesis
      by (simp add: generateNormalLogStatement_def Let_def nullSentinelBranch_def
            dereferencedBranch_def derefArgument_def Slog_distinct)
  next
    case 5
    with assms(1) show ?thesis
      by (simp add: generateNormalLogStatement_def Let_def nullSentinelBranch_def
            dereferencedBranch_def derefArgument_def Slog_distinct)
  qed
qed

section \<open>The repository's tests, evaluated on the model\<close>

text \<open>
  Cases of \<open>TestHasOakDirective\<close> (with the comment \<open>/*/\<close>, which no parsed file holds),
  \<open>TestGenerateLogStatement\<close>, \<open>TestExtractStructs\<close> and \<open>TestAnalyzeStruct\<close>, with the
  results that the tests expect.
\<close>

lemma test_hasOakDirective:
  "commentHasDirective ''//go:generate oak'' = Inr True"
  "commentHasDirective ''//go:generate oak --verbose'' = Inr True"
  "commentHasDirective ''//go:generate mockgen'' = Inr False"
  "commentHasDirective (''/*'' @ [CHR 0x0A] @ ''go:generate oak'' @ [CHR 0x0A] @ ''*/'') = Inr True"
  "commentHasDirective ''/*/'' = Inl SliceBoundsOutOfRange"
  by code_simp+

lemma test_GenerateLogStatement:
  \<open>GenerateLogStatement
     \<lparr>Field = testField ''Username'' ''string'' [] False, Action = ActionLog,
      SlogFunc = SlogString, LogValue = []\<rparr> ''u'' = ''slog.String("Username", u.Username)''\<close>
  \<open>GenerateLogStatement
     \<lparr>Field = testField ''Age'' ''int'' [] False, Action = ActionLog,
      SlogFunc = SlogInt64, LogValue = []\<rparr> ''u'' = ''slog.Int64("Age", int64(u.Age))''\<close>
  by code_simp+

lemma test_extractFields:
  \<open>extractFields
     [([''ID''], Ident ''int'', None),
      ([''GuestName''], Ident ''string'', None),
      ([''Password''], Ident ''string'', None),
      ([''Notes''], Ident ''string'', Some (CHR 0x60 # ''log:"-"'' @ [CHR 0x60])),
      ([''Secret''], Ident ''string'', Some (CHR 0x60 # ''log:"redact"'' @ [CHR 0x60])),
      ([''Pointer''], StarExpr (Ident ''string''), None)]
   = [testField ''ID'' ''int'' [] False,
      testField ''GuestName'' ''string'' [] False,
      testField ''Password'' ''string'' [] False,
      (testField ''Notes'' ''string'' ''-'' False)\<lparr>Tag := CHR 0x60 # ''log:"-"'' @ [CHR 0x60]\<rparr>,
      (testField ''Secret'' ''string'' ''redact'' False)\<lparr>Tag := CHR 0x60 # ''log:"redact"'' @ [CHR 0x60]\<rparr>,
      testField ''Pointer'' ''*string'' [] True]\<close>
  by code_simp

lemma test_AnalyzeStruct:
  "AnalyzeStruct id (NewTypeAnalyzer (Some (testConfig\<lparr>RedactMessage := ''[REDACTED]''\<rparr>)))
     \<lparr>StructName = ''User'', PackageName = ''main'',
      Fields = [testField ''ID'' ''int'' [] False, testField ''Username'' ''string'' [] False,
                testField ''Password'' ''string'' [] False, testField ''Notes'' ''string'' ''-'' False,
                testField ''Token'' ''string'' ''redact'' False],
      FilePath = []\<rparr>
   = Inr [\<lparr>Field = testField ''ID'' ''int'' [] False, Action = ActionLog, SlogFunc = SlogInt64, LogValue = []\<rparr>,
          \<lparr>Field = testField ''Username'' ''string'' [] False, Action = ActionLog, SlogFunc = SlogString, LogValue = []\<rparr>,
          \<lparr>Field = testField ''Password'' ''string'' [] False, Action = ActionRedact, SlogFunc = SlogString, LogValue = ''[REDACTED]''\<rparr>,
          \<lparr>Field = testField ''Notes'' ''string'' ''-'' False, Action = ActionSkip, SlogFunc = [], LogValue = []\<rparr>,
          \<lparr>Field = testField ''Token'' ''string'' ''redact'' False, Action = ActionRedact, SlogFunc = SlogString, LogValue = ''[REDACTED]''\<rparr>]"
  by code_simp

section \<open>Skip precedence\<close>

text \<open>
  C1. A field whose log directive is exactly \<open>-\<close> is analysed to \<open>ActionSkip\<close>, whatever
  its name, its type, the configuration (even a nil one) and the Unicode lowering:
  a name that matches a stored key does not turn the result into \<open>ActionRedact\<close>.
  The analysis returned carries the field and the zero strategy and log value.
\<close>

theorem skip_precedence:
  "LogTag field = ''-'' \<Longrightarrow>
     AnalyzeField mapLower ta field
       = Inr \<lparr>Field = field, Action = ActionSkip, SlogFunc = [], LogValue = []\<rparr>
     \<and> shouldRedactField mapLower ta field = Inr False
     \<and> (\<forall>a. AnalyzeField mapLower ta field = Inr a \<longrightarrow> Action a \<noteq> ActionRedact)"
  by (simp add: AnalyzeField_def shouldRedactField_def ActionSkip_def ActionRedact_def)

theorem skip_precedence_witness:
  "LogTag (testField ''Password'' ''string'' ''-'' False) = ''-''
   \<and> ShouldRedactField id testConfig (Name (testField ''Password'' ''string'' ''-'' False))
   \<and> AnalyzeField id testAnalyzer (testField ''Password'' ''string'' ''-'' False)
       = Inr \<lparr>Field = testField ''Password'' ''string'' ''-'' False, Action = ActionSkip,
              SlogFunc = [], LogValue = []\<rparr>"
  using skip_precedence [of "testField ''Password'' ''string'' ''-'' False" id testAnalyzer]
  by (simp add: testField_def ShouldRedactField_set ToLower_Password testConfig_def)

section \<open>Records with loggable fields\<close>

text \<open>
  C9. For an analyzer with a configuration, \<open>HasLoggableFields\<close> returns true exactly
  when some field of the record is analysed to an action other than \<open>ActionSkip\<close>. A
  record whose every field carries the directive \<open>-\<close> gives false (with any analyzer,
  since the configuration is never read). A field with the directive \<open>-\<close> is analysed to
  \<open>ActionSkip\<close>, and the statement generated for an analysis with \<open>ActionSkip\<close> is the
  empty string.
\<close>

theorem HasLoggableFields_iff_some_field_not_skipped:
  "(config ta = Some c \<longrightarrow>
      HasLoggableFields mapLower ta s
        = Inr (\<exists>f\<in>set (Fields s). \<exists>a. AnalyzeField mapLower ta f = Inr a \<and> Action a \<noteq> ActionSkip))
   \<and> ((\<forall>f\<in>set (Fields s). LogTag f = ''-'') \<longrightarrow> HasLoggableFields mapLower ta s = Inr False)
   \<and> (LogTag field = ''-'' \<longrightarrow>
        (\<exists>a. AnalyzeField mapLower ta field = Inr a \<and> Action a = ActionSkip
              \<and> GenerateLogStatement a receiverName = []))
   \<and> (Action analysis = ActionSkip \<longrightarrow> GenerateLogStatement analysis receiverName = [])"
proof (intro conjI impI)
  assume "config ta = Some c"
  then show "HasLoggableFields mapLower ta s
        = Inr (\<exists>f\<in>set (Fields s). \<exists>a. AnalyzeField mapLower ta f = Inr a \<and> Action a \<noteq> ActionSkip)"
    by (rule HasLoggableFields_Some)
next
  assume "\<forall>f\<in>set (Fields s). LogTag f = ''-''"
  then show "HasLoggableFields mapLower ta s = Inr False"
    by (rule HasLoggableFields_all_skip)
next
  assume "LogTag field = ''-''"
  then show "\<exists>a. AnalyzeField mapLower ta field = Inr a \<and> Action a = ActionSkip
              \<and> GenerateLogStatement a receiverName = []"
    by (simp add: AnalyzeField_def GenerateLogStatement_def)
next
  assume "Action analysis = ActionSkip"
  then show "GenerateLogStatement analysis receiverName = []"
    by (rule GenerateLogStatement_skip)
qed

theorem HasLoggableFields_witness:
  "HasLoggableFields id testAnalyzer allSkippedStruct = Inr False
   \<and> HasLoggableFields id testAnalyzer mixedStruct = Inr True
   \<and> GenerateLogStatement
        \<lparr>Field = testField ''Field1'' ''string'' ''-'' False, Action = ActionSkip,
         SlogFunc = [], LogValue = []\<rparr> ''u'' = []"
  using HasLoggableFields_iff_some_field_not_skipped
          [of testAnalyzer testConfig id allSkippedStruct
              "testField ''Field1'' ''string'' ''-'' False" "''u''"
              "\<lparr>Field = testField ''Field1'' ''string'' ''-'' False, Action = ActionSkip,
                SlogFunc = [], LogValue = []\<rparr>"]
        HasLoggableFields_iff_some_field_not_skipped
          [of testAnalyzer testConfig id mixedStruct
              "testField ''Field1'' ''string'' ''-'' False" "''u''"
              "\<lparr>Field = testField ''Field1'' ''string'' ''-'' False, Action = ActionSkip,
                SlogFunc = [], LogValue = []\<rparr>"]
  by (simp add: testAnalyzer_def NewTypeAnalyzer_def allSkippedStruct_def mixedStruct_def
        testField_def AnalyzeField_Some Action_distinct)

section \<open>Redaction by trigger name\<close>

text \<open>
  C2, as stated, fails: \<open>ShouldRedactField\<close> lowers the field name and compares it with
  the keys as they are stored. With the configuration of \<open>TestConfigValidation\<close> before
  \<open>validate\<close> has run, the field \<open>Password\<close> equals the stored key \<open>Password\<close>, and is
  analysed to \<open>ActionLog\<close>.
\<close>

theorem trigger_match_counterexample:
  "LogTag (testField ''Password'' ''string'' [] False) \<noteq> ''-''
   \<and> ''Password'' \<in> set (RedactKeys unvalidatedConfig)
   \<and> sameIgnoringCase id (Name (testField ''Password'' ''string'' [] False)) ''Password''
   \<and> AnalyzeField id (NewTypeAnalyzer (Some unvalidatedConfig))
        (testField ''Password'' ''string'' [] False)
       = Inr \<lparr>Field = testField ''Password'' ''string'' [] False, Action = ActionLog,
              SlogFunc = SlogString, LogValue = []\<rparr>
   \<and> ActionLog \<noteq> ActionRedact"
  by (simp add: testField_def unvalidatedConfig_def sameIgnoringCase_def NewTypeAnalyzer_def
        AnalyzeField_Some ShouldRedactField_set ToLower_Password Action_distinct
        getSlogFunction_def)

text \<open>
  C2, amended. For a configuration whose stored keys are in lower case (each key is its
  own lowering), a field without the skip directive whose name is, ignoring case, one
  of the keys is analysed to \<open>ActionRedact\<close>. \<open>validate\<close> lowers the keys: with the
  configuration that it leaves, a field whose name is, ignoring case, one of the keys
  given to \<open>validate\<close> is analysed to \<open>ActionRedact\<close>. The names \<open>Password\<close>, \<open>PASSWORD\<close>
  and \<open>password\<close> against the key \<open>password\<close> are the witness.
\<close>

theorem trigger_match_redacts:
  "(config ta = Some c \<and> (\<forall>k\<in>set (RedactKeys c). ToLower mapLower k = k)
      \<and> LogTag field \<noteq> ''-''
      \<and> (\<exists>k\<in>set (RedactKeys c). sameIgnoringCase mapLower (Name field) k)
    \<longrightarrow> (\<exists>a. AnalyzeField mapLower ta field = Inr a \<and> Action a = ActionRedact))
   \<and> (config ta = Some (fst (validate mapLower fs c0))
      \<and> LogTag field \<noteq> ''-''
      \<and> (\<exists>k\<in>set (RedactKeys c0). sameIgnoringCase mapLower (Name field) k)
    \<longrightarrow> (\<exists>a. AnalyzeField mapLower ta field = Inr a \<and> Action a = ActionRedact))"
proof (intro conjI impI)
  assume a: "config ta = Some c \<and> (\<forall>k\<in>set (RedactKeys c). ToLower mapLower k = k)
      \<and> LogTag field \<noteq> ''-''
      \<and> (\<exists>k\<in>set (RedactKeys c). sameIgnoringCase mapLower (Name field) k)"
  then obtain k where "k \<in> set (RedactKeys c)"
    and "ToLower mapLower (Name field) = ToLower mapLower k"
    by (auto simp: sameIgnoringCase_def)
  with a have "ShouldRedactField mapLower c (Name field)"
    by (simp add: ShouldRedactField_set)
  with a show "\<exists>a. AnalyzeField mapLower ta field = Inr a \<and> Action a = ActionRedact"
    by (simp add: AnalyzeField_Some)
next
  assume a: "config ta = Some (fst (validate mapLower fs c0))
      \<and> LogTag field \<noteq> ''-''
      \<and> (\<exists>k\<in>set (RedactKeys c0). sameIgnoringCase mapLower (Name field) k)"
  then obtain k where "k \<in> set (RedactKeys c0)"
    and "ToLower mapLower (Name field) = ToLower mapLower k"
    by (auto simp: sameIgnoringCase_def)
  then have "ShouldRedactField mapLower (fst (validate mapLower fs c0)) (Name field)"
    by (simp add: ShouldRedactField_set validate_RedactKeys)
  with a show "\<exists>a. AnalyzeField mapLower ta field = Inr a \<and> Action a = ActionRedact"
    by (simp add: AnalyzeField_Some)
qed

theorem trigger_match_redacts_witness:
  "list_all (\<lambda>k. ToLower id k = k) (RedactKeys testConfig)
   \<and> sameIgnoringCase id ''Password'' ''password''
   \<and> sameIgnoringCase id ''PASSWORD'' ''password''
   \<and> sameIgnoringCase id ''password'' ''password''
   \<and> (\<exists>a. AnalyzeField id testAnalyzer (testField ''Password'' ''string'' [] False) = Inr a
            \<and> Action a = ActionRedact)
   \<and> (\<exists>a. AnalyzeField id testAnalyzer (testField ''PASSWORD'' ''string'' [] False) = Inr a
            \<and> Action a = ActionRedact)
   \<and> (\<exists>a. AnalyzeField id testAnalyzer (testField ''password'' ''string'' [] False) = Inr a
            \<and> Action a = ActionRedact)
   \<and> fst (validate id okFileSystem unvalidatedConfig)
       = \<lparr>Packages = [''.''], RedactKeys = [''password'', ''secret''],
          RedactMessage = ''[REDACTED]''\<rparr>
   \<and> (\<exists>a. AnalyzeField id
              (NewTypeAnalyzer (Some (fst (validate id okFileSystem unvalidatedConfig))))
              (testField ''Password'' ''string'' [] False) = Inr a
            \<and> Action a = ActionRedact)"
  using trigger_match_redacts
          [of testAnalyzer testConfig id "testField ''Password'' ''string'' [] False"]
        trigger_match_redacts
          [of testAnalyzer testConfig id "testField ''PASSWORD'' ''string'' [] False"]
        trigger_match_redacts
          [of testAnalyzer testConfig id "testField ''password'' ''string'' [] False"]
        trigger_match_redacts
          [of "NewTypeAnalyzer (Some (fst (validate id okFileSystem unvalidatedConfig)))"
              testConfig id "testField ''Password'' ''string'' [] False"
              okFileSystem unvalidatedConfig]
  by (simp add: testAnalyzer_def NewTypeAnalyzer_def testConfig_def testField_def
        sameIgnoringCase_def ToLower_Password ToLower_PASSWORD ToLower_password
        unvalidatedConfig_def validate_fst ToLower_SECRET)

section \<open>Stored keys are compared as they are\<close>

text \<open>
  C10, as stated, fails: a configuration that holds a key with an upper-case letter can
  hold other keys, and those still match. \<open>mixedCaseConfig\<close> holds \<open>Password\<close> and
  \<open>secret\<close>, and \<open>ShouldRedactField\<close> is true for the field name \<open>secret\<close>.
\<close>

theorem uppercase_key_counterexample:
  "''Password'' \<in> set (RedactKeys mixedCaseConfig) \<and> hasUpper ''Password''
   \<and> ShouldRedactField id mixedCaseConfig ''secret''"
  by (simp add: mixedCaseConfig_def ShouldRedactField_set hasUpper_examples ToLower_secret)

text \<open>
  C10, amended. \<open>ShouldRedactField\<close> lowers the queried field name only: it is true
  exactly when the lowered name is one of the keys as stored. A stored key with an
  ASCII upper-case letter is therefore matched by no field name, the key itself
  included: the result is the same with these keys removed, and a configuration all of
  whose keys have such a letter gives false for every field name. (Both need that the
  Unicode path of \<open>ToLower\<close> yields no ASCII capital.) For a configuration whose keys are
  in lower case the match is the case-insensitive one, and \<open>validate\<close> lowers the keys:
  with the configuration that it leaves, a name matches exactly when it is, ignoring
  case, one of the keys that \<open>validate\<close> was given.
\<close>

theorem uppercase_key_never_matches:
  "(ShouldRedactField mapLower c fieldName \<longleftrightarrow> ToLower mapLower fieldName \<in> set (RedactKeys c))
   \<and> ((\<forall>s. \<not> hasUpper (mapLower s)) \<longrightarrow>
        ShouldRedactField mapLower c fieldName
          = ShouldRedactField mapLower
              (c\<lparr>RedactKeys := filter (\<lambda>k. \<not> hasUpper k) (RedactKeys c)\<rparr>) fieldName)
   \<and> ((\<forall>s. \<not> hasUpper (mapLower s)) \<and> (\<forall>k\<in>set (RedactKeys c). hasUpper k) \<longrightarrow>
        \<not> ShouldRedactField mapLower c fieldName)
   \<and> ((\<forall>k\<in>set (RedactKeys c). ToLower mapLower k = k) \<longrightarrow>
        (ShouldRedactField mapLower c fieldName
           \<longleftrightarrow> (\<exists>k\<in>set (RedactKeys c). sameIgnoringCase mapLower fieldName k)))
   \<and> (ShouldRedactField mapLower (fst (validate mapLower fs c)) fieldName
           \<longleftrightarrow> (\<exists>k\<in>set (RedactKeys c). sameIgnoringCase mapLower fieldName k))"
proof (intro conjI impI)
  show "ShouldRedactField mapLower c fieldName \<longleftrightarrow> ToLower mapLower fieldName \<in> set (RedactKeys c)"
    by (rule ShouldRedactField_set)
next
  assume "\<forall>s. \<not> hasUpper (mapLower s)"
  then have "\<not> hasUpper (ToLower mapLower fieldName)" by (rule ToLower_no_upper)
  then show "ShouldRedactField mapLower c fieldName
          = ShouldRedactField mapLower
              (c\<lparr>RedactKeys := filter (\<lambda>k. \<not> hasUpper k) (RedactKeys c)\<rparr>) fieldName"
    by (auto simp: ShouldRedactField_set)
next
  assume "(\<forall>s. \<not> hasUpper (mapLower s)) \<and> (\<forall>k\<in>set (RedactKeys c). hasUpper k)"
  moreover from this have "\<not> hasUpper (ToLower mapLower fieldName)"
    by (simp add: ToLower_no_upper)
  ultimately show "\<not> ShouldRedactField mapLower c fieldName"
    by (auto simp: ShouldRedactField_set)
next
  assume "\<forall>k\<in>set (RedactKeys c). ToLower mapLower k = k"
  then show "ShouldRedactField mapLower c fieldName
           \<longleftrightarrow> (\<exists>k\<in>set (RedactKeys c). sameIgnoringCase mapLower fieldName k)"
    by (auto simp: ShouldRedactField_set sameIgnoringCase_def)
next
  show "ShouldRedactField mapLower (fst (validate mapLower fs c)) fieldName
           \<longleftrightarrow> (\<exists>k\<in>set (RedactKeys c). sameIgnoringCase mapLower fieldName k)"
    by (auto simp: ShouldRedactField_set sameIgnoringCase_def validate_RedactKeys)
qed

theorem uppercase_key_never_matches_witness:
  "(\<forall>s. \<not> hasUpper (map lowerByte s))
   \<and> list_all hasUpper (RedactKeys upperOnlyConfig)
   \<and> \<not> ShouldRedactField (map lowerByte) upperOnlyConfig ''Password''
   \<and> \<not> ShouldRedactField (map lowerByte) upperOnlyConfig ''password''
   \<and> list_all (\<lambda>k. ToLower (map lowerByte) k = k) (RedactKeys testConfig)
   \<and> ShouldRedactField (map lowerByte) testConfig ''PASSWORD''
   \<and> ShouldRedactField (map lowerByte)
        (fst (validate (map lowerByte) okFileSystem unvalidatedConfig)) ''secret''"
  using uppercase_key_never_matches [of "map lowerByte" upperOnlyConfig "''Password''"]
        uppercase_key_never_matches [of "map lowerByte" upperOnlyConfig "''password''"]
        uppercase_key_never_matches [of "map lowerByte" testConfig "''PASSWORD''"]
        uppercase_key_never_matches [of "map lowerByte" unvalidatedConfig "''secret''" okFileSystem]
  by (simp add: map_lowerByte_no_upper upperOnlyConfig_def testConfig_def unvalidatedConfig_def
        sameIgnoringCase_def ToLower_Password ToLower_password ToLower_PASSWORD ToLower_SECRET
        ToLower_secret hasUpper_examples)

section \<open>Redacted fields\<close>

text \<open>
  C3. With a configuration, \<open>AnalyzeField\<close> returns an analysis, and the analysis is a
  redaction exactly when the field is not skipped and either carries the directive
  \<open>redact\<close> or has a name that \<open>ShouldRedactField\<close> accepts. A redaction carries the
  string strategy and the configured message as its log value, whatever the type and
  the pointer flag of the field, and its statement is the single emission
  \<open>slog.String("<name>", "<message>")\<close>.
\<close>

theorem redacted_field_emission:
  \<open>config ta = Some c \<Longrightarrow>
     \<exists>a. AnalyzeField mapLower ta field = Inr a
       \<and> (Action a = ActionRedact \<longleftrightarrow>
            LogTag field \<noteq> ''-''
            \<and> (LogTag field = ''redact'' \<or> ShouldRedactField mapLower c (Name field)))
       \<and> (Action a = ActionRedact \<longrightarrow>
            SlogFunc a = SlogString \<and> LogValue a = RedactMessage c
            \<and> GenerateLogStatement a receiverName
                = ''slog.String("'' @ Name field @ ''", "'' @ RedactMessage c @ ''")'')\<close>
  by (simp add: AnalyzeField_Some GenerateLogStatement_redact Action_distinct SlogString_def)

theorem redacted_field_emission_witness:
  \<open>\<exists>a. AnalyzeField id testAnalyzer (testField ''Token'' ''*int'' ''redact'' True) = Inr a
        \<and> Action a = ActionRedact \<and> SlogFunc a = SlogString \<and> LogValue a = ''[HIDDEN]''
        \<and> GenerateLogStatement a ''u'' = ''slog.String("Token", "[HIDDEN]")''\<close>
  using redacted_field_emission
          [of testAnalyzer testConfig id "testField ''Token'' ''*int'' ''redact'' True" "''u''"]
  by (auto simp add: testAnalyzer_def NewTypeAnalyzer_def testConfig_def testField_def)

section \<open>Selection of the emission strategy\<close>

text \<open>
  C6. \<open>getSlogFunction\<close> always gives one of the five strategies. The base type it
  classifies is the type signature, without one leading pointer marker when the field
  is a pointer field; where the pointer flag agrees with the marker, as in every
  descriptor that \<open>extractFields\<close> builds from a pointer type, that is the signature
  without one leading marker whenever it has one. An integer type of any width and
  signedness gives \<open>slog.Int64\<close>, \<open>string\<close> gives \<open>slog.String\<close>, \<open>bool\<close> gives
  \<open>slog.Bool\<close>, \<open>float32\<close> and \<open>float64\<close> give \<open>slog.Float64\<close>, and every other base
  type gives \<open>slog.Any\<close>.
\<close>

theorem getSlogFunction_total:
  "getSlogFunction field \<in> {SlogInt64, SlogString, SlogBool, SlogFloat64, SlogAny}
   \<and> (let base = (if IsPointer field then stripPointerMarker (Type field) else Type field)
      in ((IsPointer field \<longleftrightarrow> HasPrefix (Type field) ''*'')
            \<longrightarrow> base = stripPointerMarker (Type field))
       \<and> (base \<in> integerTypes \<longrightarrow> getSlogFunction field = SlogInt64)
       \<and> (base = ''string'' \<longrightarrow> getSlogFunction field = SlogString)
       \<and> (base = ''bool'' \<longrightarrow> getSlogFunction field = SlogBool)
       \<and> (base \<in> {''float32'', ''float64''} \<longrightarrow> getSlogFunction field = SlogFloat64)
       \<and> (base \<notin> integerTypes \<union> {''string'', ''bool'', ''float32'', ''float64''}
            \<longrightarrow> getSlogFunction field = SlogAny))"
proof -
  have total: "getSlogFunction field \<in> {SlogInt64, SlogString, SlogBool, SlogFloat64, SlogAny}"
    by (rule getSlogFunction_five)
  have agree: "(IsPointer field \<longleftrightarrow> HasPrefix (Type field) ''*'') \<longrightarrow>
      (if IsPointer field then stripPointerMarker (Type field) else Type field)
        = stripPointerMarker (Type field)"
    using flag_agrees_with_marker [of field] by blast
  show ?thesis
    using total agree getSlogFunction_table [of field]
    by (auto simp: Let_def integerTypes_def)
qed

theorem getSlogFunction_total_witness:
  "getSlogFunction (testField ''TestField'' ''*float32'' [] True) = SlogFloat64
   \<and> getSlogFunction (testField ''TestField'' ''*int64'' [] True) = SlogInt64
   \<and> getSlogFunction (testField ''TestField'' ''uint16'' [] False) = SlogInt64
   \<and> getSlogFunction (testField ''TestField'' ''*string'' [] True) = SlogString
   \<and> getSlogFunction (testField ''TestField'' ''bool'' [] False) = SlogBool
   \<and> getSlogFunction (testField ''TestField'' ''**int'' [] True) = SlogAny
   \<and> getSlogFunction (testField ''TestField'' ''map[string]int'' [] False) = SlogAny"
  using getSlogFunction_total [of "testField ''TestField'' ''*float32'' [] True"]
        getSlogFunction_total [of "testField ''TestField'' ''*int64'' [] True"]
        getSlogFunction_total [of "testField ''TestField'' ''uint16'' [] False"]
        getSlogFunction_total [of "testField ''TestField'' ''*string'' [] True"]
        getSlogFunction_total [of "testField ''TestField'' ''bool'' [] False"]
        getSlogFunction_total [of "testField ''TestField'' ''**int'' [] True"]
        getSlogFunction_total [of "testField ''TestField'' ''map[string]int'' [] False"]
  by (simp add: testField_def stripPointerMarker_def integerTypes_def HasPrefix_def Let_def)

section \<open>Emission for a nullable field\<close>

text \<open>
  C4, as stated, fails for redacted fields: the statement of a redaction is the single
  emission of the message, for a pointer field as for any other. The pointer field
  \<open>Token\<close> with the directive \<open>redact\<close> gives \<open>slog.String("Token", "[HIDDEN]")\<close>, which
  has no test for nil, no \<open>null\<close> literal and no dereference.
\<close>

theorem nullable_redact_counterexample:
  \<open>IsPointer (testField ''Token'' ''*string'' ''redact'' True)
   \<and> AnalyzeField id testAnalyzer (testField ''Token'' ''*string'' ''redact'' True)
       = Inr \<lparr>Field = testField ''Token'' ''*string'' ''redact'' True, Action = ActionRedact,
              SlogFunc = SlogString, LogValue = ''[HIDDEN]''\<rparr>
   \<and> GenerateLogStatement
        \<lparr>Field = testField ''Token'' ''*string'' ''redact'' True, Action = ActionRedact,
         SlogFunc = SlogString, LogValue = ''[HIDDEN]''\<rparr> ''u''
       = ''slog.String("Token", "[HIDDEN]")''
   \<and> \<not> sublist ''nil'' ''slog.String("Token", "[HIDDEN]")''
   \<and> \<not> sublist ''null'' ''slog.String("Token", "[HIDDEN]")''
   \<and> \<not> sublist ''*'' ''slog.String("Token", "[HIDDEN]")''\<close>
  by (simp add: testField_def testAnalyzer_def NewTypeAnalyzer_def testConfig_def
        AnalyzeField_Some GenerateLogStatement_redact SlogString_def sublist_Cons_right)

text \<open>
  C4, amended. For every pointer field whose action is \<open>ActionLog\<close>, the statement is a
  function literal whose body is the null-sentinel branch followed by the dereferenced
  branch with the strategy selected for the field: it contains both.
\<close>

theorem nullable_log_emission:
  assumes "AnalyzeField mapLower ta field = Inr a" and "IsPointer field" and "Action a = ActionLog"
  shows "GenerateLogStatement a receiverName
           = ''func() slog.Attr {'' @ nlTabs 4
             @ nullSentinelBranch (getFieldAccessor field receiverName) (Name field)
             @ nlTabs 4
             @ dereferencedBranch (getSlogFunction field) (getFieldAccessor field receiverName)
                 (Name field)
             @ nlTabs 3 @ ''}()''
         \<and> sublist (nullSentinelBranch (getFieldAccessor field receiverName) (Name field))
               (GenerateLogStatement a receiverName)
         \<and> sublist (dereferencedBranch (getSlogFunction field)
                      (getFieldAccessor field receiverName) (Name field))
               (GenerateLogStatement a receiverName)"
proof -
  have f: "Field a = field" using assms(1) by (rule AnalyzeField_Field)
  have s: "SlogFunc a = getSlogFunction field" using assms(1,3) by (rule AnalyzeField_log)
  have "GenerateLogStatement a receiverName = generateNormalLogStatement a receiverName"
    using assms(3) by (simp add: GenerateLogStatement_def Action_distinct)
  also have "\<dots> = ''func() slog.Attr {'' @ nlTabs 4
             @ nullSentinelBranch (getFieldAccessor field receiverName) (Name field)
             @ nlTabs 4
             @ dereferencedBranch (getSlogFunction field) (getFieldAccessor field receiverName)
                 (Name field)
             @ nlTabs 3 @ ''}()''"
    using generateNormalLogStatement_pointer [of a receiverName] assms(2) f s
      getSlogFunction_five [of field]
    by simp
  finally have eq: "GenerateLogStatement a receiverName = ''func() slog.Attr {'' @ nlTabs 4
             @ nullSentinelBranch (getFieldAccessor field receiverName) (Name field)
             @ nlTabs 4
             @ dereferencedBranch (getSlogFunction field) (getFieldAccessor field receiverName)
                 (Name field)
             @ nlTabs 3 @ ''}()''" .
  have s1: "sublist (nullSentinelBranch (getFieldAccessor field receiverName) (Name field))
               (GenerateLogStatement a receiverName)"
    unfolding eq sublist_def
    by (rule exI [of _ "''func() slog.Attr {'' @ nlTabs 4"], rule exI [of _ "nlTabs 4
             @ dereferencedBranch (getSlogFunction field) (getFieldAccessor field receiverName)
                 (Name field)
             @ nlTabs 3 @ ''}()''"]) simp
  have s2: "sublist (dereferencedBranch (getSlogFunction field)
                      (getFieldAccessor field receiverName) (Name field))
               (GenerateLogStatement a receiverName)"
    unfolding eq sublist_def
    by (rule exI [of _ "''func() slog.Attr {'' @ nlTabs 4
             @ nullSentinelBranch (getFieldAccessor field receiverName) (Name field)
             @ nlTabs 4"], rule exI [of _ "nlTabs 3 @ ''}()''"]) simp
  from eq s1 s2 show ?thesis by blast
qed

theorem nullable_log_emission_witness:
  \<open>AnalyzeField id (NewTypeAnalyzer (Some DefaultConfig)) (testField ''Email'' ''*string'' [] True)
     = Inr \<lparr>Field = testField ''Email'' ''*string'' [] True, Action = ActionLog,
            SlogFunc = SlogString, LogValue = []\<rparr>
   \<and> GenerateLogStatement
        \<lparr>Field = testField ''Email'' ''*string'' [] True, Action = ActionLog,
         SlogFunc = SlogString, LogValue = []\<rparr> ''u''
     = ''func() slog.Attr {'' @ nlTabs 4 @ ''if u.Email == nil {''
       @ nlTabs 5 @ ''return slog.String("Email", "null")''
       @ nlTabs 4 @ ''}''
       @ nlTabs 4 @ ''return slog.String("Email", *u.Email)''
       @ nlTabs 3 @ ''}()''
   \<and> AnalyzeField id (NewTypeAnalyzer (Some DefaultConfig)) (testField ''Count'' ''*int64'' [] True)
     = Inr \<lparr>Field = testField ''Count'' ''*int64'' [] True, Action = ActionLog,
            SlogFunc = SlogInt64, LogValue = []\<rparr>
   \<and> GenerateLogStatement
        \<lparr>Field = testField ''Count'' ''*int64'' [] True, Action = ActionLog,
         SlogFunc = SlogInt64, LogValue = []\<rparr> ''s''
     = ''func() slog.Attr {'' @ nlTabs 4 @ ''if s.Count == nil {''
       @ nlTabs 5 @ ''return slog.String("Count", "null")''
       @ nlTabs 4 @ ''}''
       @ nlTabs 4 @ ''return slog.Int64("Count", int64(*s.Count))''
       @ nlTabs 3 @ ''}()''\<close>
proof -
  have e: "AnalyzeField id (NewTypeAnalyzer (Some DefaultConfig)) (testField ''Email'' ''*string'' [] True)
     = Inr \<lparr>Field = testField ''Email'' ''*string'' [] True, Action = ActionLog,
            SlogFunc = SlogString, LogValue = []\<rparr>"
    by (simp add: NewTypeAnalyzer_def DefaultConfig_def AnalyzeField_Some testField_def
          ShouldRedactField_set getSlogFunction_table stripPointerMarker_def integerTypes_def)
  have c: "AnalyzeField id (NewTypeAnalyzer (Some DefaultConfig)) (testField ''Count'' ''*int64'' [] True)
     = Inr \<lparr>Field = testField ''Count'' ''*int64'' [] True, Action = ActionLog,
            SlogFunc = SlogInt64, LogValue = []\<rparr>"
    by (simp add: NewTypeAnalyzer_def DefaultConfig_def AnalyzeField_Some testField_def
          ShouldRedactField_set getSlogFunction_table stripPointerMarker_def integerTypes_def)
  have s: "getSlogFunction (testField ''Email'' ''*string'' [] True) = SlogString"
    "getSlogFunction (testField ''Count'' ''*int64'' [] True) = SlogInt64"
    by (simp_all add: testField_def getSlogFunction_table stripPointerMarker_def integerTypes_def)
  show ?thesis
    using nullable_log_emission [OF e, of "''u''"] nullable_log_emission [OF c, of "''s''"] e c
    by (simp add: s nullSentinelBranch_def dereferencedBranch_def derefArgument_def
          getFieldAccessor_def Slog_distinct)
       (simp add: testField_def SlogString_def SlogInt64_def)
qed

section \<open>Normalization of type signatures\<close>

text \<open>
  C5, as stated, fails in two places. An interface type is none of the six listed
  shapes, and \<open>typeToString\<close> has a case of its own for it that gives \<open>interface{}\<close>, not
  \<open>unknown\<close>. And a fixed-length array is a listed shape, but \<open>typeToString\<close> passes the
  length expression to itself, which has no case for a literal: the array type
  \<open>[5]int\<close> gives \<open>[unknown]int\<close>, where the specification's table has \<open>[5]int\<close>.
\<close>

theorem unlisted_shape_counterexample:
  "\<not> listedShape InterfaceType \<and> typeToString InterfaceType = ''interface{}''
   \<and> typeToString InterfaceType \<noteq> ''unknown''
   \<and> listedShape (ArrayType (Some (BasicLit ''5'')) (Ident ''int''))
   \<and> typeToString (ArrayType (Some (BasicLit ''5'')) (Ident ''int'')) = ''[unknown]int''
   \<and> typeToString (ArrayType (Some (BasicLit ''5'')) (Ident ''int'')) \<noteq> ''[5]int''"
  by simp

text \<open>
  C5, amended. \<open>typeToString\<close> maps a plain identifier, a reference, a sequence, a
  fixed-length array whose length is written as a constant name (plain or qualified),
  a mapping and a qualified external reference to their structured signatures, an
  interface type to \<open>interface{}\<close>, and every expression of another kind to \<open>unknown\<close>.
  It is a total function: its recursion is on the parts of the expression. Nothing is
  stated here for a fixed-length array whose length is written otherwise.
\<close>

theorem typeToString_shapes:
  "typeToString (Ident name) = name
   \<and> typeToString (StarExpr x) = ''*'' @ typeToString x
   \<and> typeToString (ArrayType None elt) = ''[]'' @ typeToString elt
   \<and> typeToString (ArrayType (Some (Ident n)) elt) = ''['' @ n @ '']'' @ typeToString elt
   \<and> typeToString (ArrayType (Some (SelectorExpr (Ident pkg) n)) elt)
       = ''['' @ pkg @ ''.'' @ n @ '']'' @ typeToString elt
   \<and> typeToString (MapType key val) = ''map['' @ typeToString key @ '']'' @ typeToString val
   \<and> typeToString (SelectorExpr x sel) = typeToString x @ ''.'' @ sel
   \<and> typeToString InterfaceType = ''interface{}''
   \<and> (\<not> listedShape e \<and> e \<noteq> InterfaceType \<longrightarrow> typeToString e = ''unknown'')"
  by (cases e) simp_all

theorem typeToString_shapes_witness:
  "typeToString FuncType = ''unknown''
   \<and> typeToString (IndexExpr (Ident ''List'') (Ident ''int'')) = ''unknown''
   \<and> typeToString (ChanType (Ident ''int'')) = ''unknown''
   \<and> typeToString (StructType []) = ''unknown''
   \<and> typeToString
        (MapType (Ident ''string'')
           (ArrayType None (StarExpr (SelectorExpr (Ident ''time'') ''Time''))))
       = ''map[string][]*time.Time''
   \<and> typeToString (ArrayType (Some (Ident ''N'')) InterfaceType) = ''[N]interface{}''
   \<and> typeToString (ArrayType (Some (SelectorExpr (Ident ''sha256'') ''Size'')) (Ident ''byte''))
       = ''[sha256.Size]byte''"
  using typeToString_shapes [where e = FuncType]
        typeToString_shapes [where e = "IndexExpr (Ident ''List'') (Ident ''int'')"]
        typeToString_shapes [where e = "ChanType (Ident ''int'')"]
        typeToString_shapes [where e = "StructType []"]
        typeToString_shapes [where name = "''string''" and key = "Ident ''string''"
            and val = "ArrayType None (StarExpr (SelectorExpr (Ident ''time'') ''Time''))"
            and elt = "StarExpr (SelectorExpr (Ident ''time'') ''Time'')"
            and x = "SelectorExpr (Ident ''time'') ''Time''" and e = BadExpr]
        typeToString_shapes [where name = "''N''" and n = "''N''" and elt = InterfaceType
            and e = BadExpr]
        typeToString_shapes [where name = "''byte''" and pkg = "''sha256''" and n = "''Size''"
            and elt = "Ident ''byte''" and e = BadExpr]
  by simp

section \<open>The log directive of a field\<close>

text \<open>
  C8, as stated, fails: the result need not come from the first token whose key is
  \<open>log\<close>. \<open>extractLogTag\<close> passes over a token with the key \<open>log\<close> whose value is not
  between double quotes and goes on to the next one. In \<open>log:x log:"y"\<close> the first token
  with the key \<open>log\<close> is \<open>log:x\<close> and the result is \<open>y\<close>; in \<open>log: log:"-"\<close> the first
  token with the key \<open>log\<close> has an empty value and the result is \<open>-\<close>.
\<close>

theorem first_log_token_counterexample:
  \<open>Split ''log:x log:"y"'' CHR '' '' = [''log:x'', ''log:"y"'']
   \<and> HasPrefix ''log:x'' ''log:''
   \<and> extractLogTag (CHR 0x60 # ''log:x log:"y"'' @ [CHR 0x60]) = ''y''
   \<and> Split ''log: log:"-"'' CHR '' '' = [''log:'', ''log:"-"'']
   \<and> HasPrefix ''log:'' ''log:''
   \<and> extractLogTag (CHR 0x60 # ''log: log:"-"'' @ [CHR 0x60]) = ''-''\<close>
  by (simp add: extractLogTag_def HasPrefix_def)

text \<open>
  C8, amended. For a backtick-delimited annotation, \<open>extractLogTag\<close> returns the value
  of the first space-separated token of the form \<open>log:"v"\<close>, as it is; every other
  token is passed over, a token with the key \<open>log\<close> and no quoted value included. So
  where the first such token is \<open>log:"v"\<close>, the result is \<open>v\<close> whatever tokens stand
  before it (none of them of that form) and after it: the position of the token does
  not matter, and an empty \<open>v\<close> gives the empty string. Where no token has that form,
  and for the empty annotation, the result is the empty string. A field without
  annotation gets the empty directive, a field with one gets what \<open>extractLogTag\<close>
  returns for it.
\<close>

theorem extractLogTag_first_quoted_log_token:
  \<open>extractLogTag (CHR 0x60 # body @ [CHR 0x60]) = firstQuotedLogValue (Split body CHR '' '')
   \<and> ((\<forall>t\<in>set (pre @ post). CHR '' '' \<notin> set t) \<and> CHR '' '' \<notin> set v
       \<and> (\<forall>t\<in>set pre. \<not> quotedLogToken t)
      \<longrightarrow> extractLogTag (CHR 0x60 # joinTokens (pre @ [''log:"'' @ v @ ''"''] @ post) @ [CHR 0x60])
            = v)
   \<and> ((\<forall>t\<in>set ts. CHR '' '' \<notin> set t \<and> \<not> quotedLogToken t)
      \<longrightarrow> extractLogTag (CHR 0x60 # joinTokens ts @ [CHR 0x60]) = [])
   \<and> extractLogTag [] = []
   \<and> LogTag (newFieldInfo name t None) = []
   \<and> LogTag (newFieldInfo name t (Some tag)) = extractLogTag tag\<close>
proof (intro conjI impI)
  show "extractLogTag (CHR 0x60 # body @ [CHR 0x60]) = firstQuotedLogValue (Split body CHR '' '')"
    by (simp only: extractLogTag_backticks findLogTag_first)
next
  assume a: \<open>(\<forall>t\<in>set (pre @ post). CHR '' '' \<notin> set t) \<and> CHR '' '' \<notin> set v
       \<and> (\<forall>t\<in>set pre. \<not> quotedLogToken t)\<close>
  let ?tok = \<open>''log:"'' @ v @ ''"''\<close>
  have "\<forall>t\<in>set (pre @ [?tok] @ post). CHR '' '' \<notin> set t"
    using a by auto
  then have "Split (joinTokens (pre @ [?tok] @ post)) CHR '' '' = pre @ [?tok] @ post"
    by (intro Split_joinTokens) simp_all
  moreover have "firstQuotedLogValue (pre @ [?tok] @ post) = v"
  proof -
    have "firstQuotedLogValue (pre @ ?tok # post) = v"
      using a by (intro firstQuotedLogValue_append) blast
    then show ?thesis by (simp only: append_Cons append_Nil)
  qed
  ultimately show "extractLogTag (CHR 0x60 # joinTokens (pre @ [?tok] @ post) @ [CHR 0x60]) = v"
    by (simp only: extractLogTag_backticks findLogTag_first)
next
  assume a: "\<forall>t\<in>set ts. CHR '' '' \<notin> set t \<and> \<not> quotedLogToken t"
  show "extractLogTag (CHR 0x60 # joinTokens ts @ [CHR 0x60]) = []"
  proof (cases "ts = []")
    case True
    have "extractLogTag (CHR 0x60 # [] @ [CHR 0x60]) = findLogTag (Split [] CHR '' '')"
      by (rule extractLogTag_backticks)
    with True show ?thesis by (simp add: HasPrefix_def)
  next
    case False
    with a have "Split (joinTokens ts) CHR '' '' = ts"
      by (intro Split_joinTokens) simp_all
    moreover from a have "firstQuotedLogValue ts = []" by (simp add: firstQuotedLogValue_none)
    ultimately show ?thesis by (simp only: extractLogTag_backticks findLogTag_first)
  qed
next
  show "extractLogTag [] = []"
    by (simp add: extractLogTag_def HasPrefix_def)
next
  show "LogTag (newFieldInfo name t None) = []"
    by (simp add: newFieldInfo_def)
next
  show "LogTag (newFieldInfo name t (Some tag)) = extractLogTag tag"
    by (simp add: newFieldInfo_def)
qed

theorem extractLogTag_witness:
  \<open>extractLogTag (CHR 0x60 # ''json:"name" log:"redact"'' @ [CHR 0x60]) = ''redact''
   \<and> extractLogTag (CHR 0x60 # ''log:"redact" json:"name"'' @ [CHR 0x60]) = ''redact''
   \<and> extractLogTag (CHR 0x60 # ''log:"-"'' @ [CHR 0x60]) = ''-''
   \<and> extractLogTag (CHR 0x60 # ''log:""'' @ [CHR 0x60]) = []
   \<and> extractLogTag (CHR 0x60 # ''json:"name"'' @ [CHR 0x60]) = []
   \<and> extractLogTag (CHR 0x60 # ''log:x log:"y"'' @ [CHR 0x60]) = ''y''
   \<and> extractLogTag (CHR 0x60 # ''log:"a b" log:"-"'' @ [CHR 0x60]) = ''-''
   \<and> extractLogTag (CHR 0x60 # ''log:redact'' @ [CHR 0x60]) = []
   \<and> extractLogTag (CHR 0x60 # ''log:"a b"'' @ [CHR 0x60]) = []\<close>
  using extractLogTag_first_quoted_log_token
          [of _ \<open>[''json:"name"'']\<close> "[]" "''redact''" \<open>[''json:"name"'']\<close>]
        extractLogTag_first_quoted_log_token [of _ "[]" \<open>[''json:"name"'']\<close> "''redact''" "[]"]
        extractLogTag_first_quoted_log_token [of _ "[]" "[]" "''-''" "[''log:redact'']"]
        extractLogTag_first_quoted_log_token [of _ "[]" "[]" "[]" "[]"]
        extractLogTag_first_quoted_log_token [of _ "[''log:x'']" "[]" "''y''" "[]"]
        extractLogTag_first_quoted_log_token [of _ \<open>[''log:"a'', ''b"'']\<close> "[]" "''-''" "[]"]
        extractLogTag_first_quoted_log_token
          [of _ "[]" "[]" "[]" \<open>[''log:"a'', ''b"'']\<close>]
  by (simp add: quotedLogToken_def HasPrefix_def)

section \<open>Source units without the generation marker\<close>

text \<open>
  C7. Let the parser accept the source unit, so that its comments are line comments
  and terminated block comments. If no comment carries the marker, \<open>ParseFile\<close> returns
  the empty result and no error (and does not panic). A line comment
  \<open>//go:generate oak\<close> followed by any arguments carries the marker, and a unit that
  holds such a comment is extracted: \<open>ParseFile\<close> returns its structs.
\<close>

theorem no_directive_empty_result:
  "(goParse filePath = Inr file
      \<and> (\<forall>g\<in>set (Comments file). \<forall>c\<in>set g. scannedComment c \<and> \<not> isDirectiveComment c)
     \<longrightarrow> ParseFile goParse filePath = Inr (Inr \<lparr>Structs = [], Errors = []\<rparr>))
   \<and> (goParse filePath = Inr file
      \<and> (\<forall>g\<in>set (Comments file). \<forall>c\<in>set g. scannedComment c)
      \<and> (\<exists>g\<in>set (Comments file). ''//go:generate oak'' @ args \<in> set g)
     \<longrightarrow> ParseFile goParse filePath
           = Inr (Inr \<lparr>Structs = extractStructs file filePath, Errors = []\<rparr>))
   \<and> isDirectiveComment (''//go:generate oak'' @ args)"
proof (intro conjI impI)
  assume a: "goParse filePath = Inr file
      \<and> (\<forall>g\<in>set (Comments file). \<forall>c\<in>set g. scannedComment c \<and> \<not> isDirectiveComment c)"
  then have "hasOakDirective file = Inr False"
    using hasOakDirective_eq [of "file"] by simp
  with a show "ParseFile goParse filePath = Inr (Inr \<lparr>Structs = [], Errors = []\<rparr>)"
    by (simp add: ParseFile_def)
next
  assume a: "goParse filePath = Inr file
      \<and> (\<forall>g\<in>set (Comments file). \<forall>c\<in>set g. scannedComment c)
      \<and> (\<exists>g\<in>set (Comments file). ''//go:generate oak'' @ args \<in> set g)"
  then have "\<exists>g\<in>set (Comments file). \<exists>c\<in>set g. isDirectiveComment c"
    using directive_with_arguments [of args] by blast
  with a have "hasOakDirective file = Inr True"
    using hasOakDirective_eq [of "file"] by simp
  with a show "ParseFile goParse filePath
           = Inr (Inr \<lparr>Structs = extractStructs file filePath, Errors = []\<rparr>)"
    by (simp add: ParseFile_def)
next
  show "isDirectiveComment (''//go:generate oak'' @ args)"
    by (rule directive_with_arguments)
qed

theorem no_directive_empty_result_witness:
  "ParseFile (parseAs (testFile [[''//go:generate mockgen'']])) ''test.go''
     = Inr (Inr \<lparr>Structs = [], Errors = []\<rparr>)
   \<and> ParseFile (parseAs (testFile [])) ''test.go''
     = Inr (Inr \<lparr>Structs = [], Errors = []\<rparr>)
   \<and> ParseFile (parseAs (testFile [[''//go:generate oak --verbose'']])) ''test.go''
     = Inr (Inr \<lparr>Structs = [\<lparr>StructName = ''User'', PackageName = ''main'',
                              Fields = [testField ''Name'' ''string'' [] False],
                              FilePath = ''test.go''\<rparr>],
                Errors = []\<rparr>)"
  using no_directive_empty_result
          [of "parseAs (testFile [[''//go:generate mockgen'']])" "''test.go''"
              "testFile [[''//go:generate mockgen'']]" "'' --verbose''"]
        no_directive_empty_result
          [of "parseAs (testFile [])" "''test.go''" "testFile []" "'' --verbose''"]
        no_directive_empty_result
          [of "parseAs (testFile [[''//go:generate oak --verbose'']])" "''test.go''"
              "testFile [[''//go:generate oak --verbose'']]" "'' --verbose''"]
  by (simp add: parseAs_def testFile_def not_directive_mockgen scannedComment_def HasPrefix_def
        extractStructs_def newFieldInfo_def testField_def)

end
